theory Spec2Isabelle
  imports Complex_Main
begin

section \<open>Calendar dates and the JavaScript \<open>Date\<close> operations the client uses\<close>

text \<open>
  A JavaScript \<open>Date\<close> is read and written by the client through its local wall-clock
  fields (\<open>getFullYear\<close>, \<open>getDate\<close>, \<open>setDate\<close>, \<open>setHours\<close>, the date-fns helpers)
  except where it calls \<open>getTime()\<close>. A \<open>jsdate\<close> holds these local fields: the
  calendar year, the month (1 to 12, as in the ISO string), the day of the month and the
  milliseconds since local midnight. The browser's time zone enters in two places, each
  with a parameter of its own: the offset from UTC, which \<open>getTime()\<close> needs (\<open>zone\<close>),
  and the local times that the zone skips when its clocks go forward, which a setter can
  hit (\<open>skips\<close>). The first part of this section computes on the local fields alone.
\<close>

record jsdate =
  year :: int
  month :: int
  day :: int
  ms :: int

definition leap :: "int \<Rightarrow> bool" where
  "leap y = (y mod 4 = 0 \<and> (y mod 100 \<noteq> 0 \<or> y mod 400 = 0))"

text \<open>Days in month \<open>m\<close> of year \<open>y\<close>.\<close>

definition dim :: "int \<Rightarrow> int \<Rightarrow> int" where
  "dim y m = (if m = 2 then (if leap y then 29 else 28)
              else if m = 4 \<or> m = 6 \<or> m = 9 \<or> m = 11 then 30 else 31)"

definition valid_date :: "jsdate \<Rightarrow> bool" where
  "valid_date d = (1 \<le> month d \<and> month d \<le> 12 \<and> 1 \<le> day d \<and> day d \<le> dim (year d) (month d)
                   \<and> 0 \<le> ms d \<and> ms d < 86400000)"

text \<open>Days from 0001-01-01 (proleptic Gregorian, a Monday) to the first day of year \<open>y\<close>.\<close>

definition days_before_year :: "int \<Rightarrow> int" where
  "days_before_year y = 365 * (y - 1) + (y - 1) div 4 - (y - 1) div 100 + (y - 1) div 400"

definition days_before_month :: "int \<Rightarrow> int \<Rightarrow> int" where
  "days_before_month y m =
     (if m \<le> 1 then 0 else if m = 2 then 31
      else (if leap y then 1 else 0) +
        (if m = 3 then 59 else if m = 4 then 90 else if m = 5 then 120 else if m = 6 then 151
         else if m = 7 then 181 else if m = 8 then 212 else if m = 9 then 243
         else if m = 10 then 273 else if m = 11 then 304 else 334))"

definition day_number :: "jsdate \<Rightarrow> int" where
  "day_number d = days_before_year (year d) + days_before_month (year d) (month d) + (day d - 1)"

text \<open>\<open>Date.getDay()\<close>: 0 is Sunday, 1 is Monday, ..., 6 is Saturday.\<close>

definition getDay :: "jsdate \<Rightarrow> int" where
  "getDay d = (day_number d + 1) mod 7"

text \<open>The number of days from the last Monday on or before \<open>d\<close> to \<open>d\<close>.\<close>

definition since_monday :: "jsdate \<Rightarrow> int" where
  "since_monday d = (getDay d + 6) mod 7"

text \<open>
  \<open>setDate\<close> with a day outside the month rolls over into the neighbouring months, as the
  \<open>Date\<close> object does: one calendar day at a time, backwards or forwards.
\<close>

definition prev_day :: "jsdate \<Rightarrow> jsdate" where
  "prev_day d =
     (if 1 < day d then d\<lparr>day := day d - 1\<rparr>
      else if 1 < month d then d\<lparr>month := month d - 1, day := dim (year d) (month d - 1)\<rparr>
      else d\<lparr>year := year d - 1, month := 12, day := 31\<rparr>)"

definition next_day :: "jsdate \<Rightarrow> jsdate" where
  "next_day d =
     (if day d < dim (year d) (month d) then d\<lparr>day := day d + 1\<rparr>
      else if month d < 12 then d\<lparr>month := month d + 1, day := 1\<rparr>
      else d\<lparr>year := year d + 1, month := 1, day := 1\<rparr>)"

fun back_days :: "nat \<Rightarrow> jsdate \<Rightarrow> jsdate" where
  "back_days 0 d = d"
| "back_days (Suc n) d = back_days n (prev_day d)"

fun fwd_days :: "nat \<Rightarrow> jsdate \<Rightarrow> jsdate" where
  "fwd_days 0 d = d"
| "fwd_days (Suc n) d = fwd_days n (next_day d)"

definition setDate :: "jsdate \<Rightarrow> int \<Rightarrow> jsdate" where
  "setDate d n = (if day d \<le> n then fwd_days (nat (n - day d)) d else back_days (nat (day d - n)) d)"

text \<open>
  \<open>setHours(0, 0, 0, 0)\<close> and \<open>setHours(23, 59, 59, 999)\<close> on the local fields: what
  the setters give where the zone does not skip the local time that is set. The functions
  with the suffix \<open>_in\<close>, further down, add what the zone does to a skipped time.
\<close>

definition setHours_start :: "jsdate \<Rightarrow> jsdate" where
  "setHours_start d = d\<lparr>ms := 0\<rparr>"

definition setHours_end :: "jsdate \<Rightarrow> jsdate" where
  "setHours_end d = d\<lparr>ms := 86399999\<rparr>"

subsection \<open>The date-fns helpers\<close>

text \<open>
  The helpers are the library's, written here as the library implements them on the local
  fields: each sets the date, then the time. \<open>startOfWeek\<close> and \<open>endOfWeek\<close> take the
  option \<open>weekStartsOn\<close>; the client always passes 1 (Monday).
\<close>

definition startOfDay :: "jsdate \<Rightarrow> jsdate" where
  "startOfDay d = setHours_start d"

definition endOfDay :: "jsdate \<Rightarrow> jsdate" where
  "endOfDay d = setHours_end d"

definition startOfWeek :: "int \<Rightarrow> jsdate \<Rightarrow> jsdate" where
  "startOfWeek weekStartsOn d =
     (let dy = getDay d;
          diff = (if dy < weekStartsOn then 7 else 0) + dy - weekStartsOn
      in setHours_start (setDate d (day d - diff)))"

definition endOfWeek :: "int \<Rightarrow> jsdate \<Rightarrow> jsdate" where
  "endOfWeek weekStartsOn d =
     (let dy = getDay d;
          diff = (if dy < weekStartsOn then - 7 else 0) + 6 - (dy - weekStartsOn)
      in setHours_end (setDate d (day d + diff)))"

definition startOfMonth :: "jsdate \<Rightarrow> jsdate" where
  "startOfMonth d = setHours_start (d\<lparr>day := 1\<rparr>)"

text \<open>\<open>endOfMonth\<close> sets the date to day 0 of the following month.\<close>

definition endOfMonth :: "jsdate \<Rightarrow> jsdate" where
  "endOfMonth d =
     setHours_end (prev_day (if month d < 12 then d\<lparr>month := month d + 1, day := 1\<rparr>
                             else d\<lparr>year := year d + 1, month := 1, day := 1\<rparr>))"

definition startOfYear :: "jsdate \<Rightarrow> jsdate" where
  "startOfYear d = setHours_start (d\<lparr>month := 1, day := 1\<rparr>)"

text \<open>\<open>endOfYear\<close> sets the date to day 0 of January of the following year.\<close>

definition endOfYear :: "jsdate \<Rightarrow> jsdate" where
  "endOfYear d = setHours_end (prev_day (d\<lparr>year := year d + 1, month := 1, day := 1\<rparr>))"

subsection \<open>Skipped local times\<close>

text \<open>
  Where the clocks of a zone go forward, an interval of local time does not exist. A
  \<open>skips\<close> gives, for a local reading, 0 when that local time exists in the zone, and
  the length of the skipped interval in milliseconds when the reading lies in one. A
  setter that is given a skipped local time reads it with the offset before the
  transition, so the \<open>Date\<close> it leaves shows the reading that much later; with it the
  date can move to the next day.
\<close>

type_synonym skips = "jsdate \<Rightarrow> int"

definition settle :: "skips \<Rightarrow> jsdate \<Rightarrow> jsdate" where
  "settle g x =
     (let t = ms x + g x
      in (fwd_days (nat (t div 86400000)) x)\<lparr>ms := t mod 86400000\<rparr>)"

text \<open>
  Three zones of 2025. New York skips 02:00 to 03:00 on 9 March. Havana skips 00:00 to
  01:00 on 9 March. Nuuk skips 23:00 to 24:00 on 29 March. At 1970-01-01T00:00Z New York
  and Havana showed 19:00, which is 68400000 ms into the day, and Nuuk showed 21:00, which
  is 75600000.
\<close>

definition new_york_2025_skips :: skips where
  "new_york_2025_skips x =
     (if year x = 2025 \<and> month x = 3 \<and> day x = 9 \<and> 7200000 \<le> ms x \<and> ms x < 10800000
      then 3600000 else 0)"

definition havana_2025_skips :: skips where
  "havana_2025_skips x =
     (if year x = 2025 \<and> month x = 3 \<and> day x = 9 \<and> 0 \<le> ms x \<and> ms x < 3600000
      then 3600000 else 0)"

definition nuuk_2025_skips :: skips where
  "nuuk_2025_skips x =
     (if year x = 2025 \<and> month x = 3 \<and> day x = 29 \<and> 82800000 \<le> ms x \<and> ms x < 86400000
      then 3600000 else 0)"

text \<open>
  The setters and the date-fns helpers in a zone: every setter leaves a \<open>Date\<close>, so it
  settles the reading it was given. \<open>ms\<close> in \<open>setHours_in\<close> is the time of day that the
  four arguments of \<open>setHours\<close> make up.
\<close>

definition setHours_in :: "skips \<Rightarrow> jsdate \<Rightarrow> int \<Rightarrow> jsdate" where
  "setHours_in g d t = settle g (d\<lparr>ms := t\<rparr>)"

definition setDate_in :: "skips \<Rightarrow> jsdate \<Rightarrow> int \<Rightarrow> jsdate" where
  "setDate_in g d n = settle g (setDate d n)"

definition startOfDay_in :: "skips \<Rightarrow> jsdate \<Rightarrow> jsdate" where
  "startOfDay_in g d = setHours_in g d 0"

definition endOfDay_in :: "skips \<Rightarrow> jsdate \<Rightarrow> jsdate" where
  "endOfDay_in g d = setHours_in g d 86399999"

definition startOfWeek_in :: "skips \<Rightarrow> int \<Rightarrow> jsdate \<Rightarrow> jsdate" where
  "startOfWeek_in g weekStartsOn d =
     (let dy = getDay d;
          diff = (if dy < weekStartsOn then 7 else 0) + dy - weekStartsOn
      in setHours_in g (setDate_in g d (day d - diff)) 0)"

definition endOfWeek_in :: "skips \<Rightarrow> int \<Rightarrow> jsdate \<Rightarrow> jsdate" where
  "endOfWeek_in g weekStartsOn d =
     (let dy = getDay d;
          diff = (if dy < weekStartsOn then - 7 else 0) + 6 - (dy - weekStartsOn)
      in setHours_in g (setDate_in g d (day d + diff)) 86399999)"

definition startOfMonth_in :: "skips \<Rightarrow> jsdate \<Rightarrow> jsdate" where
  "startOfMonth_in g d = setHours_in g (setDate_in g d 1) 0"

definition endOfMonth_in :: "skips \<Rightarrow> jsdate \<Rightarrow> jsdate" where
  "endOfMonth_in g d =
     setHours_in g
       (settle g (prev_day (if month d < 12 then d\<lparr>month := month d + 1, day := 1\<rparr>
                            else d\<lparr>year := year d + 1, month := 1, day := 1\<rparr>)))
       86399999"

text \<open>
  \<open>startOfYear\<close> sets the year, month 0 and day 1 on a \<open>new Date(0)\<close> and not on a copy
  of its argument, so the reading it settles first has the time of day \<open>e\<close> that the zone
  shows at 1970-01-01T00:00Z; the other helpers work on a copy of their argument, which
  keeps its time of day until \<open>setHours\<close>.
\<close>

definition startOfYear_in :: "skips \<Rightarrow> int \<Rightarrow> jsdate \<Rightarrow> jsdate" where
  "startOfYear_in g e d = setHours_in g (settle g \<lparr>year = year d, month = 1, day = 1, ms = e\<rparr>) 0"

definition endOfYear_in :: "skips \<Rightarrow> jsdate \<Rightarrow> jsdate" where
  "endOfYear_in g d =
     setHours_in g (settle g (prev_day (d\<lparr>year := year d + 1, month := 1, day := 1\<rparr>))) 86399999"

text \<open>
  \<open>getTime()\<close> is the only operation of the client that leaves the local fields: it
  returns milliseconds since 1970-01-01T00:00Z. The browser's time zone decides it; a
  \<open>zone\<close> gives, for a local wall-clock reading, the offset of local time from UTC in
  milliseconds at that reading (negative west of Greenwich, changing at a daylight-saving
  transition). Day 719162 is 1970-01-01.
\<close>

type_synonym zone = "jsdate \<Rightarrow> int"

definition getTime :: "zone \<Rightarrow> jsdate \<Rightarrow> int" where
  "getTime z d = (day_number d - 719162) * 86400000 + ms d - z d"

text \<open>
  Three zones: one with no offset from UTC at any time; the zone of New York in 2025,
  five hours behind UTC and, from 2025-03-09 02:00 to 2025-11-02 02:00 local time
  (daylight-saving time), four hours behind; and the zone of Almaty, six hours ahead of
  UTC until the end of February 2024 and five hours ahead from 1 March 2024.
\<close>

definition almaty_2024 :: zone where
  "almaty_2024 d = (if year d < 2024 \<or> (year d = 2024 \<and> month d < 3) then 21600000 else 18000000)"

definition utc :: zone where
  "utc d = 0"

definition new_york_2025 :: zone where
  "new_york_2025 d =
     (if (month d = 3 \<and> (9 < day d \<or> (day d = 9 \<and> 7200000 \<le> ms d)))
         \<or> (3 < month d \<and> month d < 11)
         \<or> (month d = 11 \<and> (day d < 2 \<or> (day d = 2 \<and> ms d < 7200000)))
      then - 14400000 else - 18000000)"

text \<open>
  \<open>new Date(y, 0, 0)\<close>: local midnight of day 0 of January, the last day of the year
  before; the constructor reads a year from 0 to 99 as 1900 + y.
\<close>

definition newDate_y00 :: "int \<Rightarrow> jsdate" where
  "newDate_y00 y =
     prev_day \<lparr>year = (if 0 \<le> y \<and> y \<le> 99 then 1900 + y else y), month = 1, day = 1, ms = 0\<rparr>"

subsection \<open>Formatting\<close>

definition digit :: "nat \<Rightarrow> char" where
  "digit n = (''0123456789'' ! (n mod 10))"

fun show_nat :: "nat \<Rightarrow> string" where
  "show_nat n = (if n < 10 then [digit n] else show_nat (n div 10) @ [digit n])"

declare show_nat.simps [simp del]

text \<open>A JavaScript integer in a template literal.\<close>

definition show_int :: "int \<Rightarrow> string" where
  "show_int i = (if i < 0 then CHR ''-'' # show_nat (nat (- i)) else show_nat (nat i))"

text \<open>date-fns \<open>addLeadingZeros\<close>.\<close>

definition addLeadingZeros :: "nat \<Rightarrow> nat \<Rightarrow> string" where
  "addLeadingZeros n w = (let s = show_nat n in replicate (w - length s) CHR ''0'' @ s)"

text \<open>The format token \<open>yyyy\<close>: a year before 1 is printed as \<open>1 - year\<close>.\<close>

definition format_yyyy :: "jsdate \<Rightarrow> string" where
  "format_yyyy d = addLeadingZeros (nat (if 0 < year d then year d else 1 - year d)) 4"

definition format_MM :: "jsdate \<Rightarrow> string" where
  "format_MM d = addLeadingZeros (nat (month d)) 2"

definition format_dd :: "jsdate \<Rightarrow> string" where
  "format_dd d = addLeadingZeros (nat (day d)) 2"

text \<open>The tokens \<open>LLLL\<close> and \<open>MMM\<close> in the default locale (en-US).\<close>

definition format_LLLL :: "jsdate \<Rightarrow> string" where
  "format_LLLL d =
     [''January'', ''February'', ''March'', ''April'', ''May'', ''June'', ''July'', ''August'',
      ''September'', ''October'', ''November'', ''December''] ! nat (month d - 1)"

definition format_MMM :: "jsdate \<Rightarrow> string" where
  "format_MMM d =
     [''Jan'', ''Feb'', ''Mar'', ''Apr'', ''May'', ''Jun'', ''Jul'', ''Aug'',
      ''Sep'', ''Oct'', ''Nov'', ''Dec''] ! nat (month d - 1)"

text \<open>The token \<open>do\<close>: the day of the month with its English ordinal suffix.\<close>

definition ordinalNumber :: "nat \<Rightarrow> string" where
  "ordinalNumber n =
     (let rem100 = n mod 100
      in show_nat n @
         (if rem100 > 20 \<or> rem100 < 10
          then (if rem100 mod 10 = 1 then ''st'' else if rem100 mod 10 = 2 then ''nd''
                else if rem100 mod 10 = 3 then ''rd'' else ''th'')
          else ''th''))"

text \<open>\<open>const iso = (d: Date) => format(d, 'yyyy-MM-dd')\<close>\<close>

definition iso :: "jsdate \<Rightarrow> string" where
  "iso d = format_yyyy d @ ''-'' @ format_MM d @ ''-'' @ format_dd d"

text \<open>\<open>format(d, 'MMM do')\<close>, the day label of \<open>client/src/main.ts\<close>.\<close>

definition format_MMM_do :: "jsdate \<Rightarrow> string" where
  "format_MMM_do d = format_MMM d @ '' '' @ ordinalNumber (nat (day d))"

text \<open>\<open>format(d, 'd.M.yyyy')\<close>, the day label of the second version of the client.\<close>

definition format_d_M_yyyy :: "jsdate \<Rightarrow> string" where
  "format_d_M_yyyy d = show_nat (nat (day d)) @ ''.'' @ show_nat (nat (month d)) @ ''.'' @ format_yyyy d"

section \<open>The scope resolver\<close>

datatype Scope = Summary | Year | Month | Week | Day

record date_range =
  start :: jsdate
  end_date :: jsdate

text \<open>
  \<open>getDateRange\<close> of \<open>client/src/main.ts\<close> on the local fields; \<open>d\<close> is
  \<open>parseISO(dateISO)\<close>, local midnight of the calendar day the string names. The
  \<open>default\<close> branch of the \<open>switch\<close> cannot be reached from a value of type \<open>Scope\<close>.
\<close>

fun getDateRange :: "jsdate \<Rightarrow> Scope \<Rightarrow> date_range" where
  "getDateRange d Summary = \<lparr>start = startOfYear d, end_date = endOfYear d\<rparr>"
| "getDateRange d Year = \<lparr>start = startOfYear d, end_date = endOfYear d\<rparr>"
| "getDateRange d Month = \<lparr>start = startOfMonth d, end_date = endOfMonth d\<rparr>"
| "getDateRange d Week = \<lparr>start = startOfWeek 1 d, end_date = endOfWeek 1 d\<rparr>"
| "getDateRange d Day = \<lparr>start = startOfDay d, end_date = endOfDay d\<rparr>"

text \<open>
  \<open>getDateRange\<close> in a zone that skips the local times \<open>g\<close> and shows the time of day
  \<open>e\<close> at 1970-01-01T00:00Z; \<open>d\<close> is the \<open>Date\<close> that \<open>parseISO\<close> returned.
\<close>

fun getDateRange_in :: "skips \<Rightarrow> int \<Rightarrow> jsdate \<Rightarrow> Scope \<Rightarrow> date_range" where
  "getDateRange_in g e d Summary = \<lparr>start = startOfYear_in g e d, end_date = endOfYear_in g d\<rparr>"
| "getDateRange_in g e d Year = \<lparr>start = startOfYear_in g e d, end_date = endOfYear_in g d\<rparr>"
| "getDateRange_in g e d Month = \<lparr>start = startOfMonth_in g d, end_date = endOfMonth_in g d\<rparr>"
| "getDateRange_in g e d Week = \<lparr>start = startOfWeek_in g 1 d, end_date = endOfWeek_in g 1 d\<rparr>"
| "getDateRange_in g e d Day = \<lparr>start = startOfDay_in g d, end_date = endOfDay_in g d\<rparr>"

text \<open>Chronological order of two local readings, field by field.\<close>

definition date_le :: "jsdate \<Rightarrow> jsdate \<Rightarrow> bool" where
  "date_le a b =
     (year a < year b \<or> (year a = year b \<and>
       (month a < month b \<or> (month a = month b \<and>
         (day a < day b \<or> (day a = day b \<and> ms a \<le> ms b))))))"

text \<open>The calendar day of a reading, without its time of day.\<close>

definition same_day :: "jsdate \<Rightarrow> jsdate \<Rightarrow> bool" where
  "same_day a b = (year a = year b \<and> month a = month b \<and> day a = day b)"

subsection \<open>Breadcrumbs\<close>

text \<open>
  \<open>renderBreadcrumbs\<close> writes a list of \<open><li>\<close> items into the page. A \<open>crumb\<close> is one
  item: its text, its \<open>data-scope\<close> attribute, and whether the text is wrapped in a link.
\<close>

record crumb =
  label :: string
  crumb_scope :: Scope
  link :: bool

text \<open>The week number within the month, as both versions of the client compute it.\<close>

definition weekOfMonth :: "zone \<Rightarrow> jsdate \<Rightarrow> int" where
  "weekOfMonth z d =
     (let monthStart = startOfMonth d;
          firstWeekStart = startOfWeek 1 monthStart;
          currentWeekStart = startOfWeek 1 d
      in (getTime z currentWeekStart - getTime z firstWeekStart) div (7 * 24 * 3600 * 1000) + 1)"

text \<open>
  The two versions of \<open>renderBreadcrumbs\<close> differ in the format of the day label only,
  which is the first argument here.
\<close>

definition breadcrumbs :: "(jsdate \<Rightarrow> string) \<Rightarrow> zone \<Rightarrow> jsdate \<Rightarrow> Scope \<Rightarrow> crumb list" where
  "breadcrumbs dayFormat z d sc =
     (let yr = format_yyyy d;
          monthName = format_LLLL d;
          dayName = dayFormat d;
          wk = weekOfMonth z d;
          html0 = [\<lparr>label = ''Summary'', crumb_scope = Summary, link = True\<rparr>];
          html1 = html0 @ [\<lparr>label = yr, crumb_scope = Year, link = True\<rparr>];
          html2 = (if sc \<noteq> Summary \<and> sc \<noteq> Year
                   then html1 @ [\<lparr>label = monthName, crumb_scope = Month, link = True\<rparr>]
                   else html1)
      in if sc = Week then html2 @ [\<lparr>label = ''Week '' @ show_int wk, crumb_scope = Week, link = False\<rparr>]
         else if sc = Day then html2 @ [\<lparr>label = dayName, crumb_scope = Day, link = False\<rparr>]
         else html2)"

text \<open>\<open>renderBreadcrumbs\<close> of \<open>client/src/main.ts\<close>.\<close>

definition renderBreadcrumbs :: "zone \<Rightarrow> jsdate \<Rightarrow> Scope \<Rightarrow> crumb list" where
  "renderBreadcrumbs = breadcrumbs format_MMM_do"

text \<open>\<open>renderBreadcrumbs\<close> of the second version of the client.\<close>

definition renderBreadcrumbs_v2 :: "zone \<Rightarrow> jsdate \<Rightarrow> Scope \<Rightarrow> crumb list" where
  "renderBreadcrumbs_v2 = breadcrumbs format_d_M_yyyy"

section \<open>Entries and the view state\<close>

datatype sentiment = Positive | Neutral | Negative

text \<open>\<open>type Analysis\<close>; \<open>intensity\<close> is a JavaScript number.\<close>

record Analysis =
  sentiment :: sentiment
  intensity :: real
  emotions :: "string list"
  themes :: "string list"

text \<open>\<open>type Note\<close>, with its fields \<open>id\<close> and \<open>text\<close> written \<open>note_id\<close> and \<open>note_text\<close>.\<close>

record Note =
  note_id :: string
  createdAt :: string
  note_text :: string
  analysis :: Analysis

text \<open>
  The object \<open>state\<close>, with its field \<open>notes\<close> written \<open>note_list\<close>. No statement of
  either version assigns to \<open>perPage\<close>.
\<close>

record state =
  dateISO :: string
  scope :: Scope
  note_list :: "Note list"
  page :: int
  perPage :: int

text \<open>The initial state; \<open>today\<close> is \<open>format(new Date(), 'yyyy-MM-dd')\<close>.\<close>

definition initial_state :: "string \<Rightarrow> state" where
  "initial_state today = \<lparr>dateISO = today, scope = Week, note_list = [], page = 1, perPage = 3\<rparr>"

text \<open>A note with a given sentiment and given labels, for the examples.\<close>

definition example_note :: "sentiment \<Rightarrow> string list \<Rightarrow> string list \<Rightarrow> Note" where
  "example_note s es ts =
     \<lparr>note_id = ''1'', createdAt = ''2025-03-09'', note_text = ''A walk at noon.'',
      analysis = \<lparr>sentiment = s, intensity = 2, emotions = es, themes = ts\<rparr>\<rparr>"

text \<open>The literal enum strings of a scope, as a template literal prints them.\<close>

fun scope_string :: "Scope \<Rightarrow> string" where
  "scope_string Summary = ''summary''"
| "scope_string Year = ''year''"
| "scope_string Month = ''month''"
| "scope_string Week = ''week''"
| "scope_string Day = ''day''"

subsection \<open>Requests\<close>

text \<open>
  An awaited promise either rejects, with an error whose message is given, or fulfils with
  a value. A \<open>response\<close> is what \<open>fetch\<close> fulfils with: the HTTP status and status text,
  and what reading the body as text and as JSON settles to. \<open>response.ok\<close> is true for a
  status from 200 to 299.
\<close>

datatype 'a settled = Rejected string | Fulfilled 'a

record 'a response =
  status :: nat
  statusText :: string
  text_body :: "string settled"
  json_body :: "'a settled"

definition ok :: "'a response \<Rightarrow> bool" where
  "ok res = (200 \<le> status res \<and> status res \<le> 299)"

text \<open>The two \<open>console.error\<close> calls of \<open>loadEntries\<close>, with their second argument.\<close>

datatype log_entry = Failed_to_load_entries nat | Error_loading_entries string

text \<open>
  What one call of \<open>loadEntries\<close> does: the URLs it fetched, what it wrote to the console,
  the state it left, and the error its promise rejected with, if it did.
\<close>

record load_outcome =
  requests :: "string list"
  logged :: "log_entry list"
  after :: state
  raised :: "string option"

text \<open>
  \<open>loadEntries\<close> of \<open>client/src/main.ts\<close>. The body of its \<open>try\<close> block either throws or
  ends with a console log and a state; the \<open>catch\<close> block logs and empties the list.
\<close>

definition loadEntries_try :: "state \<Rightarrow> Note list response settled \<Rightarrow> string + (log_entry list \<times> state)" where
  "loadEntries_try st f =
     (case f of
        Rejected e \<Rightarrow> Inl e
      | Fulfilled res \<Rightarrow>
          (if ok res
           then (case json_body res of
                   Rejected e \<Rightarrow> Inl e
                 | Fulfilled ns \<Rightarrow> Inr ([], st\<lparr>note_list := ns, page := 1\<rparr>))
           else Inr ([Failed_to_load_entries (status res)], st\<lparr>note_list := [], page := 1\<rparr>)))"

definition loadEntries :: "state \<Rightarrow> Note list response settled \<Rightarrow> load_outcome" where
  "loadEntries st f =
     (let url = ''/api/entries?scope='' @ scope_string (scope st) @ ''&date='' @ dateISO st
      in case loadEntries_try st f of
           Inr (lg, st') \<Rightarrow> \<lparr>requests = [url], logged = lg, after = st', raised = None\<rparr>
         | Inl e \<Rightarrow> \<lparr>requests = [url], logged = [Error_loading_entries e],
                      after = st\<lparr>note_list := []\<rparr>, raised = None\<rparr>)"

text \<open>
  \<open>loadEntries\<close> of the second version of the client: no \<open>try\<close> block, and the scope
  \<open>summary\<close> is requested as \<open>year\<close>.
\<close>

definition loadEntries_v2 :: "state \<Rightarrow> Note list response settled \<Rightarrow> load_outcome" where
  "loadEntries_v2 st f =
     (let scopeParam = (if scope st = Summary then ''year'' else scope_string (scope st));
          url = ''/api/entries?scope='' @ scopeParam @ ''&date='' @ dateISO st
      in case f of
           Rejected e \<Rightarrow> \<lparr>requests = [url], logged = [], after = st, raised = Some e\<rparr>
         | Fulfilled res \<Rightarrow>
             (if ok res
              then (case json_body res of
                      Rejected e \<Rightarrow> \<lparr>requests = [url], logged = [], after = st, raised = Some e\<rparr>
                    | Fulfilled ns \<Rightarrow>
                        \<lparr>requests = [url], logged = [], after = st\<lparr>note_list := ns, page := 1\<rparr>, raised = None\<rparr>)
              else \<lparr>requests = [url], logged = [Failed_to_load_entries (status res)],
                     after = st\<lparr>note_list := [], page := 1\<rparr>, raised = None\<rparr>))"

subsection \<open>Pagination\<close>

text \<open>
  \<open>Array.prototype.slice(start, end)\<close>: a negative index counts from the end of the array,
  and both indices are clamped to the array.
\<close>

definition js_slice :: "'a list \<Rightarrow> int \<Rightarrow> int \<Rightarrow> 'a list" where
  "js_slice xs s e =
     (let n = int (length xs);
          k = (if s < 0 then max (n + s) 0 else min s n);
          final = (if e < 0 then max (n + e) 0 else min e n)
      in take (nat (final - k)) (drop (nat k) xs))"

text \<open>
  What \<open>renderEntries\<close> puts into the entries container: the empty-period message, or one
  card per note of the current page, in order.
\<close>

datatype entries_view = No_entries_found | Cards "Note list"

definition renderEntries :: "state \<Rightarrow> entries_view" where
  "renderEntries st =
     (if length (note_list st) = 0 then No_entries_found
      else (let start = (page st - 1) * perPage st;
                pageNotes = js_slice (note_list st) start (start + perPage st)
            in Cards pageNotes))"

text \<open>The notes on the cards of a view.\<close>

fun cards :: "entries_view \<Rightarrow> Note list" where
  "cards No_entries_found = []"
| "cards (Cards ns) = ns"

text \<open>\<open>totalPages\<close> of \<open>renderPager\<close>.\<close>

definition totalPages :: "state \<Rightarrow> int" where
  "totalPages st = max 1 \<lceil>real (length (note_list st)) / real_of_int (perPage st)\<rceil>"

text \<open>A pager button that is not disabled sets the page and renders the entries again.\<close>

definition goto_page :: "state \<Rightarrow> int \<Rightarrow> state \<times> entries_view" where
  "goto_page st to = (let st' = st\<lparr>page := to\<rparr> in (st', renderEntries st'))"

section \<open>The overview aggregator\<close>

text \<open>
  \<open>emotionCounts\<close> and \<open>themeCounts\<close> are objects used as dictionaries: a list of the own
  properties with their counts, in the order the properties were created.
  \<open>counts[k] = (counts[k] || 0) + 1\<close> adds one to the count of an own property and
  creates a property that is not there with the count 1. That is the statement for a
  label that no object inherits: the dictionaries are object literals, and for one of the
  names of \<open>Object.prototype\<close> the statement reads the inherited value, which is no
  number. \<open>own_labels\<close> says that no label of a list is such a name.
\<close>

definition Object_prototype_names :: "string list" where
  "Object_prototype_names =
     [''constructor'', ''hasOwnProperty'', ''isPrototypeOf'', ''propertyIsEnumerable'',
      ''toLocaleString'', ''toString'', ''valueOf'', ''__proto__'', ''__defineGetter__'',
      ''__defineSetter__'', ''__lookupGetter__'', ''__lookupSetter__'']"

definition own_labels :: "string list \<Rightarrow> bool" where
  "own_labels labels = list_all (\<lambda>l. l \<notin> set Object_prototype_names) labels"

definition bump :: "(string \<times> nat) list \<Rightarrow> string \<Rightarrow> (string \<times> nat) list" where
  "bump counts k =
     (case map_of counts k of
        None \<Rightarrow> counts @ [(k, 1)]
      | Some c \<Rightarrow> map (\<lambda>(k', c'). if k' = k then (k', c' + 1) else (k', c')) counts)"

definition countLabels :: "string list \<Rightarrow> (string \<times> nat) list" where
  "countLabels labels = fold (\<lambda>k counts. bump counts k) labels []"

text \<open>
  \<open>Object.entries\<close> lists the own properties of an object in the language's property
  order: first the keys that are array indices (the canonical decimal form of an integer
  from 0 to 4294967294) in ascending numeric order, then all other string keys in
  the order of their creation.
\<close>

definition parse_int :: "string \<Rightarrow> int" where
  "parse_int s = foldl (\<lambda>a c. 10 * a + (of_char c - 48)) 0 s"

definition is_array_index :: "string \<Rightarrow> bool" where
  "is_array_index s =
     (s \<noteq> [] \<and> list_all (\<lambda>c. c \<in> set ''0123456789'') s
      \<and> (s = ''0'' \<or> hd s \<noteq> CHR ''0'') \<and> parse_int s < 4294967295)"

definition Object_entries :: "(string \<times> nat) list \<Rightarrow> (string \<times> nat) list" where
  "Object_entries counts =
     sort_key (\<lambda>e. parse_int (fst e)) (filter (\<lambda>e. is_array_index (fst e)) counts)
     @ filter (\<lambda>e. \<not> is_array_index (fst e)) counts"

text \<open>
  \<open>.sort(([,a], [,b]) => b - a)\<close>: \<open>Array.prototype.sort\<close> is stable, and the comparator
  orders by descending count. \<open>sort_key\<close> is a stable insertion sort by ascending key.
\<close>

definition sort_by_count :: "(string \<times> nat) list \<Rightarrow> (string \<times> nat) list" where
  "sort_by_count es = sort_key (\<lambda>e. - int (snd e)) es"

text \<open>The pipeline \<open>Object.entries(counts).sort(...).slice(0, 5).map(([label]) => label)\<close>.\<close>

definition topLabels :: "string list \<Rightarrow> string list" where
  "topLabels labels = map fst (js_slice (sort_by_count (Object_entries (countLabels labels))) 0 5)"

text \<open>
  The aggregate in the words of the specification: the distinct labels in the order of
  their first appearance in the flattened list, sorted stably by descending frequency,
  and the first five of them.
\<close>

definition first_seen :: "string list \<Rightarrow> string list" where
  "first_seen labels = fold (\<lambda>l seen. if l \<in> set seen then seen else seen @ [l]) labels []"

definition spec_top :: "string list \<Rightarrow> string list" where
  "spec_top labels = take 5 (sort_key (\<lambda>l. - int (count_list labels l)) (first_seen labels))"

text \<open>The property order of a list of keys given in the order of their creation.\<close>

definition property_order :: "string list \<Rightarrow> string list" where
  "property_order ks = sort_key parse_int (filter is_array_index ks) @ filter (\<lambda>k. \<not> is_array_index k) ks"

text \<open>
  The two containers of the overview card hold either one badge per label or a
  placeholder text. A container that the page does not have is \<open>None\<close>.
\<close>

datatype panel = Badges "string list" | Placeholder string

record overview =
  emotionsWrap :: "panel option"
  themesWrap :: "panel option"

text \<open>The labels of all notes in one list, as the \<open>forEach\<close> pushes them.\<close>

definition allEmotions :: "Note list \<Rightarrow> string list" where
  "allEmotions ns = concat (map (\<lambda>n. emotions (analysis n)) ns)"

definition allThemes :: "Note list \<Rightarrow> string list" where
  "allThemes ns = concat (map (\<lambda>n. themes (analysis n)) ns)"

definition show_top :: "string list \<Rightarrow> string \<Rightarrow> panel" where
  "show_top labels none = (if length labels > 0 then Badges labels else Placeholder none)"

text \<open>Setting \<open>innerHTML\<close> under \<open>if (container)\<close>: a container that is missing stays missing.\<close>

definition put :: "panel option \<Rightarrow> panel \<Rightarrow> panel option" where
  "put container p = (case container of None \<Rightarrow> None | Some old \<Rightarrow> Some p)"

text \<open>
  \<open>renderOverview\<close> of \<open>client/src/main.ts\<close>: it returns at once when there are no notes,
  and it writes into each container that it finds.
\<close>

definition renderOverview :: "state \<Rightarrow> overview \<Rightarrow> overview" where
  "renderOverview st page_dom =
     (if length (note_list st) = 0 then page_dom
      else (let topEmotions = topLabels (allEmotions (note_list st));
                topThemes = topLabels (allThemes (note_list st))
            in \<lparr>emotionsWrap = put (emotionsWrap page_dom) (show_top topEmotions ''No emotions detected''),
                themesWrap = put (themesWrap page_dom) (show_top topThemes ''No themes detected'')\<rparr>))"

text \<open>
  \<open>renderOverview\<close> of the second version of the client. With no notes it writes the
  placeholders into the containers that it finds. With notes it takes each container with
  \<open>getElementById(...)!\<close> and sets \<open>innerHTML\<close> on it, which throws a \<open>TypeError\<close> when
  the container is missing; what was written before stays written. The counters of
  \<open>sentiments\<close> are not read again and are left out.
\<close>

record render_outcome =
  shown :: overview
  thrown :: bool

definition renderOverview_v2 :: "state \<Rightarrow> overview \<Rightarrow> render_outcome" where
  "renderOverview_v2 st page_dom =
     (if length (note_list st) = 0
      then \<lparr>shown = \<lparr>emotionsWrap = put (emotionsWrap page_dom) (Placeholder ''No emotions detected''),
                      themesWrap = put (themesWrap page_dom) (Placeholder ''No themes detected'')\<rparr>,
            thrown = False\<rparr>
      else (let topEmotions = topLabels (allEmotions (note_list st));
                topThemes = topLabels (allThemes (note_list st))
            in case emotionsWrap page_dom of
                 None \<Rightarrow> \<lparr>shown = page_dom, thrown = True\<rparr>
               | Some old \<Rightarrow>
                   (let dom1 = page_dom\<lparr>emotionsWrap := Some (show_top topEmotions ''No emotions detected'')\<rparr>
                    in case themesWrap dom1 of
                         None \<Rightarrow> \<lparr>shown = dom1, thrown = True\<rparr>
                       | Some old' \<Rightarrow>
                           \<lparr>shown = dom1\<lparr>themesWrap := Some (show_top topThemes ''No themes detected'')\<rparr>,
                            thrown = False\<rparr>)))"

section \<open>The prompt selector\<close>

text \<open>The constant \<open>PROMPTS\<close>.\<close>

fun PROMPTS_daily :: "sentiment \<Rightarrow> string list" where
  "PROMPTS_daily Positive =
     [''What made today feel especially bright?'',
      ''Which moment gave you the most energy today?'',
      ''What's one thing you're grateful for right now?'',
      ''How can you carry today's good vibes forward?'']"
| "PROMPTS_daily Neutral =
     [''What's one small thing that went well today?'',
      ''Where did you feel most like yourself today?'',
      ''What helped you feel steady today?'',
      ''What's something you learned about yourself today?'']"
| "PROMPTS_daily Negative =
     [''What's one gentle thing you can do for yourself right now?'',
      ''What helped you get through the tough moments today?'',
      ''What would make tomorrow feel a little easier?'',
      ''What's the smallest step forward you could take?'']"

definition PROMPTS_weekend :: "string list" where
  "PROMPTS_weekend =
     [''Looking back at this week, what pattern do you notice in your emotions?'',
      ''What themes kept coming up in your week?'',
      ''Which day this week felt most aligned with who you are?'',
      ''What would you like to do differently next week?'',
      ''What story does your week tell about your growth?'']"

definition PROMPTS_monthly :: "string list" where
  "PROMPTS_monthly =
     [''What emotional journey did you take this month?'',
      ''Which themes dominated your month, and how do you feel about them?'',
      ''What patterns in your emotions surprise you looking back?'',
      ''How have you grown from the beginning of this month?'',
      ''What would you like to focus on next month based on your patterns?'']"

definition PROMPTS_yearly :: "string list" where
  "PROMPTS_yearly =
     [''What's the biggest emotional shift you notice over this year?'',
      ''Which themes have been most persistent in your life?'',
      ''How has your relationship with yourself evolved?'',
      ''What patterns do you see that you want to change or strengthen?'',
      ''What story does this year tell about who you're becoming?'']"

text \<open>The object \<open>sentimentCounts\<close> and the increment of one of its three counters.\<close>

record sentimentCounts =
  positive_count :: nat
  neutral_count :: nat
  negative_count :: nat

fun increment :: "sentimentCounts \<Rightarrow> sentiment \<Rightarrow> sentimentCounts" where
  "increment c Positive = c\<lparr>positive_count := positive_count c + 1\<rparr>"
| "increment c Neutral = c\<lparr>neutral_count := neutral_count c + 1\<rparr>"
| "increment c Negative = c\<lparr>negative_count := negative_count c + 1\<rparr>"

definition getRecentSentiment :: "state \<Rightarrow> sentiment" where
  "getRecentSentiment st =
     (if length (note_list st) = 0 then Neutral
      else (let recent = js_slice (note_list st) 0 3;
                counts = fold (\<lambda>n c. increment c (sentiment (analysis n))) recent
                           \<lparr>positive_count = 0, neutral_count = 0, negative_count = 0\<rparr>;
                mx = max (max (positive_count counts) (neutral_count counts)) (negative_count counts)
            in if positive_count counts = mx then Positive
               else if negative_count counts = mx then Negative
               else Neutral))"

text \<open>\<open>isWeekend\<close>; \<open>now\<close> is the clock reading \<open>new Date()\<close>.\<close>

definition isWeekend :: "jsdate \<Rightarrow> bool" where
  "isWeekend now = (let dy = getDay now in dy = 0 \<or> dy = 5 \<or> dy = 6)"

text \<open>The day of the year on the calendar: 1 for 1 January.\<close>

definition ordinal_day :: "jsdate \<Rightarrow> int" where
  "ordinal_day d = days_before_month (year d) (month d) + day d"

text \<open>How many of the notes carry the sentiment \<open>s\<close>.\<close>

definition count_sentiment :: "sentiment \<Rightarrow> Note list \<Rightarrow> nat" where
  "count_sentiment s ns = length (filter (\<lambda>n. sentiment (analysis n) = s) ns)"

text \<open>\<open>dayOfYear\<close> of \<open>choosePrompt\<close>.\<close>

definition dayOfYear :: "zone \<Rightarrow> jsdate \<Rightarrow> int" where
  "dayOfYear z now = (getTime z now - getTime z (newDate_y00 (year now))) div (1000 * 60 * 60 * 24)"

text \<open>
  Reading an array at an index: outside the array the value is \<open>undefined\<close>, which the
  concatenation with the prefix prints as the text \<open>undefined\<close>.
\<close>

definition at_index :: "string list \<Rightarrow> int \<Rightarrow> string" where
  "at_index pool i = (if 0 \<le> i \<and> i < int (length pool) then pool ! nat i else ''undefined'')"

text \<open>
  \<open>choosePrompt\<close>. \<open>now\<close> is the clock reading (the second reading, inside
  \<open>isWeekend\<close>, is taken at the same instant) and \<open>r\<close> the value of \<open>Math.random()\<close>.
\<close>

definition choosePrompt :: "zone \<Rightarrow> jsdate \<Rightarrow> state \<Rightarrow> real \<Rightarrow> string" where
  "choosePrompt z now st r =
     (let dayOfMonth = day now;
          doy = dayOfYear z now;
          (promptPool, prefix) =
            (if doy \<le> 7 \<or> doy \<ge> 358 then (PROMPTS_yearly, ''Year-end reflection: '')
             else if dayOfMonth \<le> 3 \<or> dayOfMonth \<ge> 28 then (PROMPTS_monthly, ''Monthly reflection: '')
             else if isWeekend now then (PROMPTS_weekend, ''Week reflection: '')
             else (PROMPTS_daily (getRecentSentiment st), ''Daily prompt: ''));
          randomPrompt = at_index promptPool \<lfloor>r * real (length promptPool)\<rfloor>
      in prefix @ randomPrompt)"

section \<open>Analysis and saving\<close>

definition default_analysis :: Analysis where
  "default_analysis = \<lparr>sentiment = Neutral, intensity = 2, emotions = [], themes = []\<rparr>"

text \<open>
  \<open>analyzeText\<close>: the body of its \<open>try\<close> block returns the parsed analysis or throws;
  the \<open>catch\<close> block returns the default analysis.
\<close>

definition analyzeText_try :: "string \<Rightarrow> Analysis response settled \<Rightarrow> string + Analysis" where
  "analyzeText_try txt f =
     (case f of
        Rejected e \<Rightarrow> Inl e
      | Fulfilled res \<Rightarrow>
          (if \<not> ok res
           then (case text_body res of
                   Rejected e \<Rightarrow> Inl e
                 | Fulfilled errorText \<Rightarrow>
                     Inl (''Analysis failed: '' @ show_nat (status res) @ '' - '' @ errorText))
           else (case json_body res of
                   Rejected e \<Rightarrow> Inl e
                 | Fulfilled result \<Rightarrow> Inr result)))"

definition analyzeText :: "string \<Rightarrow> Analysis response settled \<Rightarrow> Analysis" where
  "analyzeText txt f = (case analyzeText_try txt f of Inl e \<Rightarrow> default_analysis | Inr a \<Rightarrow> a)"

text \<open>
  The click handler of the save button, from the trimmed text on. It alerts, or posts the
  entry, calls \<open>refresh\<close> and closes the dialog. \<open>refresh\<close> reloads the entries (second
  version of \<open>loadEntries\<close>) and then renders the breadcrumbs, the entries and the
  overview; \<open>rendered\<close> is the error that this rendering throws, if it throws. An error
  thrown by the load or by the rendering reaches the \<open>catch\<close> block of the handler, which
  alerts and leaves the dialog open.
\<close>

record payload =
  payload_text :: string
  payload_createdAt :: string
  payload_analysis :: Analysis

record save_outcome =
  alerts :: "string list"
  posted :: "payload list"
  dialog_closed :: bool
  state_after :: state

definition save_failed :: "state \<Rightarrow> payload list \<Rightarrow> string \<Rightarrow> save_outcome" where
  "save_failed st ps message =
     \<lparr>alerts = [''Could not save entry: '' @ message], posted = ps, dialog_closed = False,
      state_after = st\<rparr>"

definition save_entry :: "state \<Rightarrow> string \<Rightarrow> string \<Rightarrow> Analysis response settled \<Rightarrow>
    Note response settled \<Rightarrow> Note list response settled \<Rightarrow> string option \<Rightarrow> save_outcome" where
  "save_entry st textToSave created fa fs fl rendered =
     (if textToSave = []
      then \<lparr>alerts = [''Please write something.''], posted = [], dialog_closed = False,
            state_after = st\<rparr>
      else (let a = analyzeText textToSave fa;
                p = \<lparr>payload_text = textToSave, payload_createdAt = created, payload_analysis = a\<rparr>
            in case fs of
                 Rejected e \<Rightarrow> save_failed st [p] e
               | Fulfilled res \<Rightarrow>
                   (if \<not> ok res
                    then (case text_body res of
                            Rejected e \<Rightarrow> save_failed st [p] e
                          | Fulfilled errorText \<Rightarrow>
                              save_failed st [p] (if errorText \<noteq> [] then errorText else statusText res))
                    else (case json_body res of
                            Rejected e \<Rightarrow> save_failed st [p] e
                          | Fulfilled savedEntry \<Rightarrow>
                              (let l = loadEntries_v2 st fl
                               in case raised l of
                                    Some e \<Rightarrow> save_failed (after l) [p] e
                                  | None \<Rightarrow>
                                      (case rendered of
                                         Some e \<Rightarrow> save_failed (after l) [p] e
                                       | None \<Rightarrow> \<lparr>alerts = [], posted = [p], dialog_closed = True,
                                                   state_after = after l\<rparr>))))))"

section \<open>Calendar arithmetic\<close>

lemma div_step:
  fixes y c :: int
  assumes "0 < c"
  shows "y div c = (y - 1) div c + (if y mod c = 0 then 1 else 0)"
proof (cases "y mod c = 0")
  case True
  then have "y = c * (y div c)" by auto
  then have "y - 1 = c * (y div c - 1) + (c - 1)" by (simp add: algebra_simps)
  then have "(y - 1) div c = y div c - 1"
    using assms by (intro int_div_pos_eq[where r = "c - 1"]) auto
  with True show ?thesis by simp
next
  case False
  have m: "0 \<le> y mod c" "y mod c < c" using assms by auto
  with False have "1 \<le> y mod c" by simp
  moreover have "y - 1 = c * (y div c) + (y mod c - 1)" by (simp add: algebra_simps)
  ultimately have "(y - 1) div c = y div c"
    using m by (intro int_div_pos_eq[where r = "y mod c - 1"]) auto
  with False show ?thesis by simp
qed

lemma mod_400_100: "(y::int) mod 400 = 0 \<Longrightarrow> y mod 100 = 0"
proof -
  assume a: "y mod 400 = 0"
  have "y mod 400 mod 100 = y mod 100" by (rule mod_mod_cancel) simp
  with a show ?thesis by simp
qed

lemma mod_100_4: "(y::int) mod 100 = 0 \<Longrightarrow> y mod 4 = 0"
proof -
  assume a: "y mod 100 = 0"
  have "y mod 100 mod 4 = y mod 4" by (rule mod_mod_cancel) simp
  with a show ?thesis by simp
qed

lemma leap_arith:
  "(C \<Longrightarrow> B) \<Longrightarrow> (B \<Longrightarrow> A) \<Longrightarrow>
   (if A then 1 else 0) - (if B then 1 else 0) + (if C then 1 else 0) = (if A \<and> (\<not> B \<or> C) then 1 else (0::int))"
  by (cases A; cases B; cases C; simp)

lemma year_arith:
  fixes a b c p q r y d4 d100 d400 :: int
  shows "d4 = a + p \<Longrightarrow> d100 = b + q \<Longrightarrow> d400 = c + r \<Longrightarrow>
    365 * y + d4 - d100 + d400 = (365 * (y - 1) + a - b + c) + (365 + (p - q + r))"
  by (simp add: algebra_simps)

lemma year_step: "days_before_year (y + 1) = days_before_year y + (if leap y then 366 else 365)"
proof -
  have e4: "y div 4 = (y - 1) div 4 + (if y mod 4 = 0 then 1 else 0)" by (rule div_step) simp
  have e100: "y div 100 = (y - 1) div 100 + (if y mod 100 = 0 then 1 else 0)" by (rule div_step) simp
  have e400: "y div 400 = (y - 1) div 400 + (if y mod 400 = 0 then 1 else 0)" by (rule div_step) simp
  have l: "(if y mod 4 = 0 then 1 else 0) - (if y mod 100 = 0 then 1 else 0) + (if y mod 400 = 0 then 1 else 0)
      = (if leap y then 1 else (0::int))"
    unfolding leap_def by (rule leap_arith) (erule mod_400_100, erule mod_100_4)
  have "days_before_year (y + 1) = 365 * y + y div 4 - y div 100 + y div 400"
    unfolding days_before_year_def by (simp only: add_diff_cancel_right')
  also have "\<dots> = days_before_year y + (365 + (if leap y then 1 else 0))"
    unfolding days_before_year_def l[symmetric] by (rule year_arith[OF e4 e100 e400])
  finally show ?thesis by (simp split: if_splits)
qed

lemma year_step_back: "days_before_year y = days_before_year (y - 1) + (if leap (y - 1) then 366 else 365)"
  using year_step[of "y - 1"] by simp

lemma month_cases:
  "1 \<le> m \<Longrightarrow> m \<le> 12 \<Longrightarrow>
   m = 1 \<or> m = 2 \<or> m = 3 \<or> m = 4 \<or> m = 5 \<or> m = 6 \<or> m = 7 \<or> m = 8 \<or> m = 9 \<or> m = 10 \<or> m = 11 \<or> m = (12::int)"
  by arith

lemma month_step:
  assumes "1 \<le> m" "m < 12"
  shows "days_before_month y (m + 1) = days_before_month y m + dim y m"
proof -
  from assms have "m = 1 \<or> m = 2 \<or> m = 3 \<or> m = 4 \<or> m = 5 \<or> m = 6 \<or> m = 7 \<or> m = 8 \<or> m = 9 \<or> m = 10 \<or> m = 11"
    by arith
  then show ?thesis
    by (elim disjE) (simp_all add: days_before_month_def dim_def)
qed

lemma days_before_december: "days_before_month y 12 + 31 = (if leap y then 366 else 365)"
  by (simp add: days_before_month_def)

lemma dim_bounds: "28 \<le> dim y m" "dim y m \<le> 31"
  by (simp_all add: dim_def)

lemma prev_day_number:
  assumes "valid_date d"
  shows "day_number (prev_day d) = day_number d - 1"
proof -
  consider (a) "1 < day d" | (b) "day d = 1" "1 < month d" | (c) "day d = 1" "month d = 1"
    using assms unfolding valid_date_def by arith
  then show ?thesis
  proof cases
    case a
    then show ?thesis by (simp add: prev_day_def day_number_def)
  next
    case b
    have "days_before_month (year d) (month d - 1 + 1)
        = days_before_month (year d) (month d - 1) + dim (year d) (month d - 1)"
      using assms b by (intro month_step) (simp_all add: valid_date_def)
    then show ?thesis using b by (simp add: prev_day_def day_number_def)
  next
    case c
    have "days_before_month (year d) 1 = 0" by (simp add: days_before_month_def)
    moreover note year_step_back[of "year d"] days_before_december[of "year d - 1"]
    ultimately show ?thesis using c
      by (simp add: prev_day_def day_number_def split: if_splits)
  qed
qed

lemma prev_day_valid:
  assumes "valid_date d"
  shows "valid_date (prev_day d)"
proof -
  consider (a) "1 < day d" | (b) "day d = 1" "1 < month d" | (c) "day d = 1" "month d = 1"
    using assms unfolding valid_date_def by arith
  then show ?thesis
  proof cases
    case a
    then show ?thesis using assms by (simp add: prev_day_def valid_date_def)
  next
    case b
    then show ?thesis using assms dim_bounds[of "year d" "month d - 1"]
      by (simp add: prev_day_def valid_date_def)
  next
    case c
    then show ?thesis using assms by (simp add: prev_day_def valid_date_def dim_def)
  qed
qed

lemma prev_day_le:
  assumes "valid_date d"
  shows "date_le (prev_day d) d"
  using assms by (simp add: prev_day_def date_le_def valid_date_def)

lemma prev_day_ms: "ms (prev_day d) = ms d"
  by (simp add: prev_day_def)

lemma next_day_number:
  assumes "valid_date d"
  shows "day_number (next_day d) = day_number d + 1"
proof -
  consider (a) "day d < dim (year d) (month d)"
    | (b) "day d = dim (year d) (month d)" "month d < 12"
    | (c) "day d = dim (year d) (month d)" "month d = 12"
    using assms unfolding valid_date_def by arith
  then show ?thesis
  proof cases
    case a
    then show ?thesis by (simp add: next_day_def day_number_def)
  next
    case b
    have "days_before_month (year d) (month d + 1)
        = days_before_month (year d) (month d) + dim (year d) (month d)"
      using assms b by (intro month_step) (simp_all add: valid_date_def)
    moreover have "days_before_month (year d) 1 = 0" by (simp add: days_before_month_def)
    ultimately show ?thesis using b by (simp add: next_day_def day_number_def)
  next
    case c
    have "dim (year d) 12 = 31" by (simp add: dim_def)
    moreover have "days_before_month (year d + 1) 1 = 0" by (simp add: days_before_month_def)
    moreover note year_step[of "year d"] days_before_december[of "year d"]
    ultimately show ?thesis using c
      by (simp add: next_day_def day_number_def split: if_splits)
  qed
qed

lemma next_day_valid:
  assumes "valid_date d"
  shows "valid_date (next_day d)"
proof -
  consider (a) "day d < dim (year d) (month d)"
    | (b) "day d = dim (year d) (month d)" "month d < 12"
    | (c) "day d = dim (year d) (month d)" "month d = 12"
    using assms unfolding valid_date_def by arith
  then show ?thesis
  proof cases
    case a
    then show ?thesis using assms by (simp add: next_day_def valid_date_def)
  next
    case b
    then show ?thesis using assms dim_bounds[of "year d" "month d + 1"]
      by (simp add: next_day_def valid_date_def)
  next
    case c
    then show ?thesis using assms dim_bounds[of "year d + 1" 1]
      by (simp add: next_day_def valid_date_def)
  qed
qed

lemma next_day_ge:
  assumes "valid_date d"
  shows "date_le d (next_day d)"
  using assms by (simp add: next_day_def date_le_def valid_date_def)

lemma next_day_ms: "ms (next_day d) = ms d"
  by (simp add: next_day_def)

lemma date_le_trans: "date_le a b \<Longrightarrow> date_le b c \<Longrightarrow> date_le a c"
  unfolding date_le_def by (elim disjE conjE) simp_all

lemma date_le_refl: "date_le a a"
  by (simp add: date_le_def)

lemma back_days_props:
  "valid_date d \<Longrightarrow>
   valid_date (back_days n d) \<and> day_number (back_days n d) = day_number d - int n
   \<and> date_le (back_days n d) d \<and> ms (back_days n d) = ms d"
proof (induction n arbitrary: d)
  case 0
  then show ?case by (simp add: date_le_refl)
next
  case (Suc n)
  from Suc.prems have v: "valid_date (prev_day d)" by (rule prev_day_valid)
  from Suc.IH[OF v] prev_day_number[OF Suc.prems] prev_day_le[OF Suc.prems] prev_day_ms[of d]
  show ?case by (auto intro: date_le_trans)
qed

lemma fwd_days_props:
  "valid_date d \<Longrightarrow>
   valid_date (fwd_days n d) \<and> day_number (fwd_days n d) = day_number d + int n
   \<and> date_le d (fwd_days n d) \<and> ms (fwd_days n d) = ms d"
proof (induction n arbitrary: d)
  case 0
  then show ?case by (simp add: date_le_refl)
next
  case (Suc n)
  from Suc.prems have v: "valid_date (next_day d)" by (rule next_day_valid)
  from Suc.IH[OF v] next_day_number[OF Suc.prems] next_day_ge[OF Suc.prems] next_day_ms[of d]
  show ?case by (auto intro: date_le_trans)
qed

lemma getDay_range: "0 \<le> getDay d" "getDay d \<le> 6"
  by (simp_all add: getDay_def)

lemma setDate_back: "0 \<le> k \<Longrightarrow> setDate d (day d - k) = back_days (nat k) d"
  by (cases "k = 0") (simp_all add: setDate_def)

lemma setDate_fwd: "0 \<le> k \<Longrightarrow> setDate d (day d + k) = fwd_days (nat k) d"
  by (simp add: setDate_def)

lemma ms_reset_le: "0 \<le> ms d \<Longrightarrow> date_le (d\<lparr>ms := 0\<rparr>) d"
  by (simp add: date_le_def)

lemma ms_end_ge: "ms d \<le> 86399999 \<Longrightarrow> date_le d (d\<lparr>ms := 86399999\<rparr>)"
  by (simp add: date_le_def)

lemma day_number_ms [simp]: "day_number (d\<lparr>ms := t\<rparr>) = day_number d"
  by (simp add: day_number_def)

lemma getDay_ms [simp]: "getDay (d\<lparr>ms := t\<rparr>) = getDay d"
  by (simp add: getDay_def)

lemma valid_date_ms: "valid_date d \<Longrightarrow> 0 \<le> t \<Longrightarrow> t < 86400000 \<Longrightarrow> valid_date (d\<lparr>ms := t\<rparr>)"
  by (simp add: valid_date_def)

lemma since_monday_range: "0 \<le> since_monday d" "since_monday d \<le> 6"
  by (simp_all add: since_monday_def)

lemma startOfWeek_eq: "startOfWeek 1 d = (back_days (nat (since_monday d)) d)\<lparr>ms := 0\<rparr>"
proof -
  have r: "0 \<le> getDay d" "getDay d \<le> 6" by (rule getDay_range)+
  have e: "(if getDay d < 1 then 7 else 0) + getDay d - 1 = since_monday d"
    using r unfolding since_monday_def by presburger
  have k: "0 \<le> since_monday d" by (rule since_monday_range)
  show ?thesis
    unfolding startOfWeek_def Let_def e setHours_start_def setDate_back[OF k] ..
qed

lemma endOfWeek_eq: "endOfWeek 1 d = (fwd_days (nat (6 - since_monday d)) d)\<lparr>ms := 86399999\<rparr>"
proof -
  have r: "0 \<le> getDay d" "getDay d \<le> 6" by (rule getDay_range)+
  have e: "(if getDay d < 1 then - 7 else 0) + 6 - (getDay d - 1) = 6 - since_monday d"
    using r unfolding since_monday_def by presburger
  have k: "0 \<le> 6 - since_monday d" using since_monday_range[of d] by simp
  show ?thesis
    unfolding endOfWeek_def Let_def e setHours_end_def setDate_fwd[OF k] ..
qed

lemma startOfWeek_props:
  assumes "valid_date d"
  shows "valid_date (startOfWeek 1 d)" "ms (startOfWeek 1 d) = 0"
    "day_number (startOfWeek 1 d) = day_number d - since_monday d"
    "date_le (startOfWeek 1 d) d"
proof -
  let ?b = "back_days (nat (since_monday d)) d"
  note p = back_days_props[OF assms, of "nat (since_monday d)"]
  have k: "0 \<le> since_monday d" by (rule since_monday_range)
  show "valid_date (startOfWeek 1 d)"
    using p by (simp add: startOfWeek_eq valid_date_ms)
  show "ms (startOfWeek 1 d) = 0" by (simp add: startOfWeek_eq)
  show "day_number (startOfWeek 1 d) = day_number d - since_monday d"
    using p k by (simp add: startOfWeek_eq)
  have "0 \<le> ms ?b" using p assms by (simp add: valid_date_def)
  then have "date_le (?b\<lparr>ms := 0\<rparr>) ?b" by (rule ms_reset_le)
  moreover have "date_le ?b d" using p by simp
  ultimately show "date_le (startOfWeek 1 d) d"
    unfolding startOfWeek_eq by (rule date_le_trans)
qed

lemma startOfWeek_monday:
  assumes "valid_date d"
  shows "getDay (startOfWeek 1 d) = 1"
proof -
  have "getDay (startOfWeek 1 d) = (day_number d - since_monday d + 1) mod 7"
    unfolding getDay_def startOfWeek_props(3)[OF assms] ..
  also have "\<dots> = 1" unfolding since_monday_def getDay_def by presburger
  finally show ?thesis .
qed

lemma endOfWeek_props:
  assumes "valid_date d"
  shows "valid_date (endOfWeek 1 d)" "ms (endOfWeek 1 d) = 86399999"
    "day_number (endOfWeek 1 d) = day_number d + (6 - since_monday d)"
    "date_le d (endOfWeek 1 d)"
proof -
  let ?f = "fwd_days (nat (6 - since_monday d)) d"
  note p = fwd_days_props[OF assms, of "nat (6 - since_monday d)"]
  have k: "0 \<le> 6 - since_monday d" using since_monday_range[of d] by simp
  show "valid_date (endOfWeek 1 d)"
    using p by (simp add: endOfWeek_eq valid_date_ms)
  show "ms (endOfWeek 1 d) = 86399999" by (simp add: endOfWeek_eq)
  show "day_number (endOfWeek 1 d) = day_number d + (6 - since_monday d)"
    using p k by (simp add: endOfWeek_eq)
  have "ms ?f \<le> 86399999" using p assms by (simp add: valid_date_def)
  then have "date_le ?f (?f\<lparr>ms := 86399999\<rparr>)" by (rule ms_end_ge)
  moreover have "date_le d ?f" using p by simp
  ultimately show "date_le d (endOfWeek 1 d)"
    unfolding endOfWeek_eq by (rule date_le_trans[rotated])
qed

lemma endOfWeek_sunday:
  assumes "valid_date d"
  shows "getDay (endOfWeek 1 d) = 0"
proof -
  have "getDay (endOfWeek 1 d) = (day_number d + (6 - since_monday d) + 1) mod 7"
    unfolding getDay_def endOfWeek_props(3)[OF assms] ..
  also have "\<dots> = 0" unfolding since_monday_def getDay_def by presburger
  finally show ?thesis .
qed

lemma startOfMonth_eq: "startOfMonth d = d\<lparr>day := 1, ms := 0\<rparr>"
  by (simp add: startOfMonth_def setHours_start_def)

lemma endOfMonth_eq:
  assumes "valid_date d"
  shows "endOfMonth d = d\<lparr>day := dim (year d) (month d), ms := 86399999\<rparr>"
proof (cases "month d < 12")
  case True
  then show ?thesis using assms
    by (simp add: endOfMonth_def setHours_end_def prev_day_def valid_date_def)
next
  case False
  with assms have m: "month d = 12" by (simp add: valid_date_def)
  have "dim (year d) 12 = 31" by (simp add: dim_def)
  with m show ?thesis
    by (simp add: endOfMonth_def setHours_end_def prev_day_def)
qed

lemma startOfYear_eq: "startOfYear d = d\<lparr>month := 1, day := 1, ms := 0\<rparr>"
  by (simp add: startOfYear_def setHours_start_def)

lemma endOfYear_eq: "endOfYear d = d\<lparr>month := 12, day := 31, ms := 86399999\<rparr>"
  by (simp add: endOfYear_def setHours_end_def prev_day_def)

section \<open>The resolved range\<close>

text \<open>
  The range on the local fields: the first and the last day of the year and of the month,
  the Monday on or before \<open>d\<close> and the Sunday six days later, and \<open>d\<close> itself.
\<close>

lemma getDateRange_local:
  assumes "valid_date d"
  shows
    "getDateRange d Summary
       = \<lparr>start = d\<lparr>month := 1, day := 1, ms := 0\<rparr>, end_date = d\<lparr>month := 12, day := 31, ms := 86399999\<rparr>\<rparr>
     \<and> getDateRange d Year
       = \<lparr>start = d\<lparr>month := 1, day := 1, ms := 0\<rparr>, end_date = d\<lparr>month := 12, day := 31, ms := 86399999\<rparr>\<rparr>
     \<and> getDateRange d Month
       = \<lparr>start = d\<lparr>day := 1, ms := 0\<rparr>, end_date = d\<lparr>day := dim (year d) (month d), ms := 86399999\<rparr>\<rparr>
     \<and> getDay (start (getDateRange d Week)) = 1
     \<and> date_le (start (getDateRange d Week)) d
     \<and> day_number d - day_number (start (getDateRange d Week)) = since_monday d
     \<and> 0 \<le> since_monday d \<and> since_monday d \<le> 6
     \<and> ms (start (getDateRange d Week)) = 0
     \<and> getDay (end_date (getDateRange d Week)) = 0
     \<and> day_number (end_date (getDateRange d Week)) = day_number (start (getDateRange d Week)) + 6
     \<and> ms (end_date (getDateRange d Week)) = 86399999
     \<and> valid_date (start (getDateRange d Week)) \<and> valid_date (end_date (getDateRange d Week))
     \<and> getDateRange d Day = \<lparr>start = d\<lparr>ms := 0\<rparr>, end_date = d\<lparr>ms := 86399999\<rparr>\<rparr>
     \<and> iso (start (getDateRange d Day)) = iso d \<and> iso (end_date (getDateRange d Day)) = iso d
     \<and> iso (start (getDateRange \<lparr>year = 2025, month = 3, day = 9, ms = 0\<rparr> Week)) = ''2025-03-03''
     \<and> iso (end_date (getDateRange \<lparr>year = 2025, month = 3, day = 9, ms = 0\<rparr> Week)) = ''2025-03-09''"
proof -
  have y: "getDateRange d Summary
       = \<lparr>start = d\<lparr>month := 1, day := 1, ms := 0\<rparr>, end_date = d\<lparr>month := 12, day := 31, ms := 86399999\<rparr>\<rparr>"
    "getDateRange d Year
       = \<lparr>start = d\<lparr>month := 1, day := 1, ms := 0\<rparr>, end_date = d\<lparr>month := 12, day := 31, ms := 86399999\<rparr>\<rparr>"
    by (simp_all add: startOfYear_eq endOfYear_eq)
  have m: "getDateRange d Month
       = \<lparr>start = d\<lparr>day := 1, ms := 0\<rparr>, end_date = d\<lparr>day := dim (year d) (month d), ms := 86399999\<rparr>\<rparr>"
    by (simp add: startOfMonth_eq endOfMonth_eq[OF assms])
  note s = startOfWeek_props[OF assms] startOfWeek_monday[OF assms]
  note e = endOfWeek_props[OF assms] endOfWeek_sunday[OF assms]
  have w1: "getDay (start (getDateRange d Week)) = 1" "date_le (start (getDateRange d Week)) d"
    "ms (start (getDateRange d Week)) = 0" "valid_date (start (getDateRange d Week))"
    using s by simp_all
  have w2: "day_number d - day_number (start (getDateRange d Week)) = since_monday d"
    using s(3) by simp
  have w3: "getDay (end_date (getDateRange d Week)) = 0" "ms (end_date (getDateRange d Week)) = 86399999"
    "valid_date (end_date (getDateRange d Week))"
    using e by simp_all
  have w4: "day_number (end_date (getDateRange d Week)) = day_number (start (getDateRange d Week)) + 6"
    using s(3) e(3) by simp
  have dd: "getDateRange d Day = \<lparr>start = d\<lparr>ms := 0\<rparr>, end_date = d\<lparr>ms := 86399999\<rparr>\<rparr>"
    by (simp add: startOfDay_def endOfDay_def setHours_start_def setHours_end_def)
  have di: "iso (start (getDateRange d Day)) = iso d" "iso (end_date (getDateRange d Day)) = iso d"
    unfolding dd by (simp_all add: iso_def format_yyyy_def format_MM_def format_dd_def)
  have x1: "iso (start (getDateRange \<lparr>year = 2025, month = 3, day = 9, ms = 0\<rparr> Week)) = ''2025-03-03''"
    by code_simp
  have x2: "iso (end_date (getDateRange \<lparr>year = 2025, month = 3, day = 9, ms = 0\<rparr> Week)) = ''2025-03-09''"
    by code_simp
  show ?thesis
    using y m w1 w2 w3 w4 dd di x1 x2 since_monday_range[of d] by (intro conjI) assumption+
qed



subsection \<open>The range in a zone that skips local times\<close>

lemma settle_id:
  assumes "g x = 0" "0 \<le> ms x" "ms x < 86400000"
  shows "settle g x = x"
proof -
  have "ms x div 86400000 = 0" using assms(2,3) by (rule div_pos_pos_trivial)
  moreover have "ms x mod 86400000 = ms x" using assms(2,3) by (rule mod_pos_pos_trivial)
  moreover have "x\<lparr>ms := ms x\<rparr> = x" by (cases x) simp
  ultimately show ?thesis by (simp add: settle_def assms(1))
qed

lemma setHours_in_id:
  assumes "g (x\<lparr>ms := t\<rparr>) = 0" "0 \<le> t" "t < 86400000"
  shows "setHours_in g x t = x\<lparr>ms := t\<rparr>"
  unfolding setHours_in_def using assms by (intro settle_id) simp_all

lemma ms_same: "ms x = t \<Longrightarrow> x\<lparr>ms := t\<rparr> = x"
  by (cases x) simp

lemma startOfDay_in_unskipped:
  assumes "g (d\<lparr>ms := 0\<rparr>) = 0"
  shows "startOfDay_in g d = d\<lparr>ms := 0\<rparr>"
  unfolding startOfDay_in_def using assms by (rule setHours_in_id) simp_all

lemma endOfDay_in_unskipped:
  assumes "g (d\<lparr>ms := 86399999\<rparr>) = 0"
  shows "endOfDay_in g d = d\<lparr>ms := 86399999\<rparr>"
  unfolding endOfDay_in_def using assms by (rule setHours_in_id) simp_all

lemma startOfWeek_in_unskipped:
  assumes "valid_date d" "g ((startOfWeek 1 d)\<lparr>ms := ms d\<rparr>) = 0" "g (startOfWeek 1 d) = 0"
  shows "startOfWeek_in g 1 d = startOfWeek 1 d"
proof -
  let ?b = "back_days (nat (since_monday d)) d"
  have r: "0 \<le> getDay d" "getDay d \<le> 6" by (rule getDay_range)+
  have e: "(if getDay d < 1 then 7 else 0) + getDay d - 1 = since_monday d"
    using r unfolding since_monday_def by presburger
  have k: "0 \<le> since_monday d" by (rule since_monday_range)
  have v: "0 \<le> ms d" "ms d < 86400000" using assms(1) by (simp_all add: valid_date_def)
  have m: "ms ?b = ms d" using back_days_props[OF assms(1), of "nat (since_monday d)"] by simp
  have "(startOfWeek 1 d)\<lparr>ms := ms d\<rparr> = ?b\<lparr>ms := ms d\<rparr>" unfolding startOfWeek_eq by simp
  also have "\<dots> = ?b" using m by (rule ms_same)
  finally have gb: "g ?b = 0" using assms(2) by simp
  have "settle g ?b = ?b" using gb v unfolding m[symmetric] by (rule settle_id)
  then have "setDate_in g d (day d - since_monday d) = ?b"
    unfolding setDate_in_def setDate_back[OF k] .
  moreover have "setHours_in g ?b 0 = ?b\<lparr>ms := 0\<rparr>"
    using assms(3) unfolding startOfWeek_eq by (intro setHours_in_id) simp_all
  ultimately have "startOfWeek_in g 1 d = ?b\<lparr>ms := 0\<rparr>"
    unfolding startOfWeek_in_def Let_def e by simp
  then show ?thesis unfolding startOfWeek_eq .
qed

lemma endOfWeek_in_unskipped:
  assumes "valid_date d" "g ((endOfWeek 1 d)\<lparr>ms := ms d\<rparr>) = 0" "g (endOfWeek 1 d) = 0"
  shows "endOfWeek_in g 1 d = endOfWeek 1 d"
proof -
  let ?f = "fwd_days (nat (6 - since_monday d)) d"
  have r: "0 \<le> getDay d" "getDay d \<le> 6" by (rule getDay_range)+
  have e: "(if getDay d < 1 then - 7 else 0) + 6 - (getDay d - 1) = 6 - since_monday d"
    using r unfolding since_monday_def by presburger
  have k: "0 \<le> 6 - since_monday d" using since_monday_range[of d] by simp
  have v: "0 \<le> ms d" "ms d < 86400000" using assms(1) by (simp_all add: valid_date_def)
  have m: "ms ?f = ms d" using fwd_days_props[OF assms(1), of "nat (6 - since_monday d)"] by simp
  have "(endOfWeek 1 d)\<lparr>ms := ms d\<rparr> = ?f\<lparr>ms := ms d\<rparr>" unfolding endOfWeek_eq by simp
  also have "\<dots> = ?f" using m by (rule ms_same)
  finally have gf: "g ?f = 0" using assms(2) by simp
  have "settle g ?f = ?f" using gf v unfolding m[symmetric] by (rule settle_id)
  then have "setDate_in g d (day d + (6 - since_monday d)) = ?f"
    unfolding setDate_in_def setDate_fwd[OF k] .
  moreover have "setHours_in g ?f 86399999 = ?f\<lparr>ms := 86399999\<rparr>"
    using assms(3) unfolding endOfWeek_eq by (intro setHours_in_id) simp_all
  ultimately have "endOfWeek_in g 1 d = ?f\<lparr>ms := 86399999\<rparr>"
    unfolding endOfWeek_in_def Let_def e by simp
  then show ?thesis unfolding endOfWeek_eq .
qed

lemma back_to_first:
  "1 \<le> day d \<Longrightarrow> nat (day d - 1) = n \<Longrightarrow> back_days n d = d\<lparr>day := 1\<rparr>"
proof (induction n arbitrary: d)
  case 0
  then have "day d = 1" by simp
  then have "d\<lparr>day := 1\<rparr> = d" by (cases d) simp
  then show ?case by simp
next
  case (Suc n)
  then have g: "1 < day d" by simp
  then have p: "prev_day d = d\<lparr>day := day d - 1\<rparr>" by (simp add: prev_day_def)
  have "back_days n (prev_day d) = (prev_day d)\<lparr>day := 1\<rparr>"
    using Suc.prems g by (intro Suc.IH) (simp_all add: p)
  then show ?case by (simp add: p)
qed

lemma setDate_first:
  assumes "valid_date d"
  shows "setDate d 1 = d\<lparr>day := 1\<rparr>"
proof -
  have d1: "1 \<le> day d" using assms by (simp add: valid_date_def)
  show ?thesis
  proof (cases "day d = 1")
    case True
    then have "d\<lparr>day := 1\<rparr> = d" by (cases d) simp
    with True show ?thesis by (simp add: setDate_def)
  next
    case False
    with d1 have "\<not> day d \<le> 1" by simp
    then have "setDate d 1 = back_days (nat (day d - 1)) d" by (simp add: setDate_def)
    also have "\<dots> = d\<lparr>day := 1\<rparr>" using d1 refl by (rule back_to_first)
    finally show ?thesis .
  qed
qed

lemma startOfMonth_in_unskipped:
  assumes "valid_date d" "g (d\<lparr>day := 1\<rparr>) = 0" "g (d\<lparr>day := 1, ms := 0\<rparr>) = 0"
  shows "startOfMonth_in g d = d\<lparr>day := 1, ms := 0\<rparr>"
proof -
  let ?x = "d\<lparr>day := 1\<rparr>"
  have v: "0 \<le> ms d" "ms d < 86400000" using assms(1) by (simp_all add: valid_date_def)
  have "settle g ?x = ?x" using assms(2) v by (intro settle_id) simp_all
  then have "setDate_in g d 1 = ?x" unfolding setDate_in_def setDate_first[OF assms(1)] .
  moreover have "setHours_in g ?x 0 = ?x\<lparr>ms := 0\<rparr>"
    using assms(3) by (intro setHours_in_id) simp_all
  ultimately show ?thesis unfolding startOfMonth_in_def by simp
qed

lemma endOfMonth_in_unskipped:
  assumes "valid_date d" "g (d\<lparr>day := dim (year d) (month d)\<rparr>) = 0"
    "g (d\<lparr>day := dim (year d) (month d), ms := 86399999\<rparr>) = 0"
  shows "endOfMonth_in g d = d\<lparr>day := dim (year d) (month d), ms := 86399999\<rparr>"
proof -
  let ?n = "if month d < 12 then d\<lparr>month := month d + 1, day := 1\<rparr>
            else d\<lparr>year := year d + 1, month := 1, day := 1\<rparr>"
  let ?x = "d\<lparr>day := dim (year d) (month d)\<rparr>"
  have v: "0 \<le> ms d" "ms d < 86400000" using assms(1) by (simp_all add: valid_date_def)
  have "(prev_day ?n)\<lparr>ms := 86399999\<rparr> = ?x\<lparr>ms := 86399999\<rparr>"
    using endOfMonth_eq[OF assms(1)] by (simp add: endOfMonth_def setHours_end_def)
  then have "((prev_day ?n)\<lparr>ms := 86399999\<rparr>)\<lparr>ms := ms d\<rparr> = (?x\<lparr>ms := 86399999\<rparr>)\<lparr>ms := ms d\<rparr>"
    by (simp only:)
  then have "(prev_day ?n)\<lparr>ms := ms d\<rparr> = ?x\<lparr>ms := ms d\<rparr>" by simp
  moreover have "ms (prev_day ?n) = ms d" by (simp add: prev_day_ms)
  moreover have "ms ?x = ms d" by simp
  ultimately have p: "prev_day ?n = ?x" by (simp only: ms_same)
  have "settle g ?x = ?x" using assms(2) v by (intro settle_id) simp_all
  moreover have "setHours_in g ?x 86399999 = ?x\<lparr>ms := 86399999\<rparr>"
    using assms(3) by (intro setHours_in_id) simp_all
  ultimately show ?thesis unfolding endOfMonth_in_def p by simp
qed

lemma startOfYear_in_unskipped:
  assumes "0 \<le> e" "e < 86400000" "g \<lparr>year = year d, month = 1, day = 1, ms = e\<rparr> = 0"
    "g \<lparr>year = year d, month = 1, day = 1, ms = 0\<rparr> = 0"
  shows "startOfYear_in g e d = \<lparr>year = year d, month = 1, day = 1, ms = 0\<rparr>"
proof -
  let ?x = "\<lparr>year = year d, month = 1, day = 1, ms = e\<rparr>"
  have "settle g ?x = ?x" using assms(3,1,2) by (intro settle_id) simp_all
  moreover have "setHours_in g ?x 0 = ?x\<lparr>ms := 0\<rparr>"
    using assms(4) by (intro setHours_in_id) simp_all
  ultimately show ?thesis unfolding startOfYear_in_def by simp
qed

lemma endOfYear_in_unskipped:
  assumes "valid_date d" "g (d\<lparr>month := 12, day := 31\<rparr>) = 0"
    "g (d\<lparr>month := 12, day := 31, ms := 86399999\<rparr>) = 0"
  shows "endOfYear_in g d = d\<lparr>month := 12, day := 31, ms := 86399999\<rparr>"
proof -
  let ?x = "d\<lparr>month := 12, day := 31\<rparr>"
  have v: "0 \<le> ms d" "ms d < 86400000" using assms(1) by (simp_all add: valid_date_def)
  have p: "prev_day (d\<lparr>year := year d + 1, month := 1, day := 1\<rparr>) = ?x"
    by (simp add: prev_day_def)
  have "settle g ?x = ?x" using assms(2) v by (intro settle_id) simp_all
  moreover have "setHours_in g ?x 86399999 = ?x\<lparr>ms := 86399999\<rparr>"
    using assms(3) by (intro setHours_in_id) simp_all
  ultimately show ?thesis unfolding endOfYear_in_def p by simp
qed

lemma week_of_2025_03_09:
  "startOfWeek 1 \<lparr>year = 2025, month = 3, day = 9, ms = 0\<rparr> = \<lparr>year = 2025, month = 3, day = 3, ms = 0\<rparr>"
  "endOfWeek 1 \<lparr>year = 2025, month = 3, day = 9, ms = 0\<rparr> = \<lparr>year = 2025, month = 3, day = 9, ms = 86399999\<rparr>"
  by code_simp+

text \<open>
  C1. \<open>getDateRange\<close> in a zone, for every date \<open>d\<close> (at any time of its day) and each
  scope, where the zone skips none of the local times that the date-fns helpers set on
  the way: the day of the bound at the time of day they start from, and the bound
  itself. The scopes summary and year give 1 January 00:00:00.000 and 31 December
  23:59:59.999 of the year of \<open>d\<close>; month gives the first and the last day of the month
  of \<open>d\<close>, the last being day \<open>dim\<close> of it; week gives the Monday on or before \<open>d\<close>, which is
  \<open>since_monday d\<close> days back, between 0 and 6, and the Sunday six days after that Monday;
  day gives the calendar day of \<open>d\<close> as start and as end. For \<open>d\<close> = 2025-03-09 and the scope
  week the bounds are the days 2025-03-03 and 2025-03-09.
\<close>

theorem getDateRange_in_bounds:
  assumes "valid_date d" "0 \<le> e" "e < 86400000"
  shows
    "(g \<lparr>year = year d, month = 1, day = 1, ms = e\<rparr> = 0
        \<and> g \<lparr>year = year d, month = 1, day = 1, ms = 0\<rparr> = 0
        \<and> g (d\<lparr>month := 12, day := 31\<rparr>) = 0
        \<and> g (d\<lparr>month := 12, day := 31, ms := 86399999\<rparr>) = 0
      \<longrightarrow> getDateRange_in g e d Summary
            = \<lparr>start = \<lparr>year = year d, month = 1, day = 1, ms = 0\<rparr>,
               end_date = \<lparr>year = year d, month = 12, day = 31, ms = 86399999\<rparr>\<rparr>
        \<and> getDateRange_in g e d Year
            = \<lparr>start = \<lparr>year = year d, month = 1, day = 1, ms = 0\<rparr>,
               end_date = \<lparr>year = year d, month = 12, day = 31, ms = 86399999\<rparr>\<rparr>)
     \<and> (g (d\<lparr>day := 1\<rparr>) = 0 \<and> g (d\<lparr>day := 1, ms := 0\<rparr>) = 0
        \<and> g (d\<lparr>day := dim (year d) (month d)\<rparr>) = 0
        \<and> g (d\<lparr>day := dim (year d) (month d), ms := 86399999\<rparr>) = 0
      \<longrightarrow> getDateRange_in g e d Month
            = \<lparr>start = d\<lparr>day := 1, ms := 0\<rparr>,
               end_date = d\<lparr>day := dim (year d) (month d), ms := 86399999\<rparr>\<rparr>)
     \<and> (g ((startOfWeek 1 d)\<lparr>ms := ms d\<rparr>) = 0 \<and> g (startOfWeek 1 d) = 0
        \<and> g ((endOfWeek 1 d)\<lparr>ms := ms d\<rparr>) = 0 \<and> g (endOfWeek 1 d) = 0
      \<longrightarrow> getDateRange_in g e d Week = \<lparr>start = startOfWeek 1 d, end_date = endOfWeek 1 d\<rparr>
        \<and> getDay (start (getDateRange_in g e d Week)) = 1
        \<and> date_le (start (getDateRange_in g e d Week)) d
        \<and> day_number d - day_number (start (getDateRange_in g e d Week)) = since_monday d
        \<and> ms (start (getDateRange_in g e d Week)) = 0
        \<and> getDay (end_date (getDateRange_in g e d Week)) = 0
        \<and> day_number (end_date (getDateRange_in g e d Week))
            = day_number (start (getDateRange_in g e d Week)) + 6
        \<and> ms (end_date (getDateRange_in g e d Week)) = 86399999)
     \<and> 0 \<le> since_monday d \<and> since_monday d \<le> 6
     \<and> (g (d\<lparr>ms := 0\<rparr>) = 0 \<and> g (d\<lparr>ms := 86399999\<rparr>) = 0
      \<longrightarrow> getDateRange_in g e d Day = \<lparr>start = d\<lparr>ms := 0\<rparr>, end_date = d\<lparr>ms := 86399999\<rparr>\<rparr>
        \<and> iso (start (getDateRange_in g e d Day)) = iso d
        \<and> iso (end_date (getDateRange_in g e d Day)) = iso d)
     \<and> (g \<lparr>year = 2025, month = 3, day = 3, ms = 0\<rparr> = 0
        \<and> g \<lparr>year = 2025, month = 3, day = 9, ms = 0\<rparr> = 0
        \<and> g \<lparr>year = 2025, month = 3, day = 9, ms = 86399999\<rparr> = 0
      \<longrightarrow> iso (start (getDateRange_in g e \<lparr>year = 2025, month = 3, day = 9, ms = 0\<rparr> Week)) = ''2025-03-03''
        \<and> iso (end_date (getDateRange_in g e \<lparr>year = 2025, month = 3, day = 9, ms = 0\<rparr> Week)) = ''2025-03-09'')"
proof -
  note l = getDateRange_local[OF assms(1)]
  have y: "getDateRange_in g e d Summary
            = \<lparr>start = \<lparr>year = year d, month = 1, day = 1, ms = 0\<rparr>,
               end_date = \<lparr>year = year d, month = 12, day = 31, ms = 86399999\<rparr>\<rparr>
        \<and> getDateRange_in g e d Year
            = \<lparr>start = \<lparr>year = year d, month = 1, day = 1, ms = 0\<rparr>,
               end_date = \<lparr>year = year d, month = 12, day = 31, ms = 86399999\<rparr>\<rparr>"
    if h: "g \<lparr>year = year d, month = 1, day = 1, ms = e\<rparr> = 0"
      "g \<lparr>year = year d, month = 1, day = 1, ms = 0\<rparr> = 0"
      "g (d\<lparr>month := 12, day := 31\<rparr>) = 0"
      "g (d\<lparr>month := 12, day := 31, ms := 86399999\<rparr>) = 0"
  proof -
    have "d\<lparr>month := 12, day := 31, ms := 86399999\<rparr>
        = \<lparr>year = year d, month = 12, day = 31, ms = 86399999\<rparr>" by (cases d) simp
    then show ?thesis
      using startOfYear_in_unskipped[of e g d, OF assms(2,3) h(1,2)] endOfYear_in_unskipped[of d g, OF assms(1) h(3,4)]
      by simp
  qed
  have m: "getDateRange_in g e d Month
            = \<lparr>start = d\<lparr>day := 1, ms := 0\<rparr>,
               end_date = d\<lparr>day := dim (year d) (month d), ms := 86399999\<rparr>\<rparr>"
    if h: "g (d\<lparr>day := 1\<rparr>) = 0" "g (d\<lparr>day := 1, ms := 0\<rparr>) = 0"
      "g (d\<lparr>day := dim (year d) (month d)\<rparr>) = 0"
      "g (d\<lparr>day := dim (year d) (month d), ms := 86399999\<rparr>) = 0"
    using startOfMonth_in_unskipped[of d g, OF assms(1) h(1,2)] endOfMonth_in_unskipped[of d g, OF assms(1) h(3,4)]
    by simp
  have w: "getDateRange_in g e d Week = getDateRange d Week"
    if h: "g ((startOfWeek 1 d)\<lparr>ms := ms d\<rparr>) = 0" "g (startOfWeek 1 d) = 0"
      "g ((endOfWeek 1 d)\<lparr>ms := ms d\<rparr>) = 0" "g (endOfWeek 1 d) = 0"
    using startOfWeek_in_unskipped[of d g, OF assms(1) h(1,2)] endOfWeek_in_unskipped[of d g, OF assms(1) h(3,4)]
    by simp
  have dd: "getDateRange_in g e d Day = getDateRange d Day"
    if h: "g (d\<lparr>ms := 0\<rparr>) = 0" "g (d\<lparr>ms := 86399999\<rparr>) = 0"
    using startOfDay_in_unskipped[of g d, OF h(1)] endOfDay_in_unskipped[of g d, OF h(2)]
    by (simp add: startOfDay_def endOfDay_def setHours_start_def setHours_end_def)
  have x: "iso (start (getDateRange_in g e \<lparr>year = 2025, month = 3, day = 9, ms = 0\<rparr> Week)) = ''2025-03-03''
        \<and> iso (end_date (getDateRange_in g e \<lparr>year = 2025, month = 3, day = 9, ms = 0\<rparr> Week)) = ''2025-03-09''"
    if h: "g \<lparr>year = 2025, month = 3, day = 3, ms = 0\<rparr> = 0"
      "g \<lparr>year = 2025, month = 3, day = 9, ms = 0\<rparr> = 0"
      "g \<lparr>year = 2025, month = 3, day = 9, ms = 86399999\<rparr> = 0"
  proof -
    let ?d = "\<lparr>year = 2025, month = 3, day = 9, ms = 0\<rparr>"
    have v: "valid_date ?d" by (simp add: valid_date_def dim_def)
    have "startOfWeek_in g 1 ?d = startOfWeek 1 ?d"
      using h by (intro startOfWeek_in_unskipped[OF v]) (simp_all add: week_of_2025_03_09)
    moreover have "endOfWeek_in g 1 ?d = endOfWeek 1 ?d"
      using h by (intro endOfWeek_in_unskipped[OF v]) (simp_all add: week_of_2025_03_09)
    ultimately have "getDateRange_in g e ?d Week = getDateRange ?d Week" by simp
    then show ?thesis using getDateRange_local[OF v] by simp
  qed
  have c1: "g \<lparr>year = year d, month = 1, day = 1, ms = e\<rparr> = 0
        \<and> g \<lparr>year = year d, month = 1, day = 1, ms = 0\<rparr> = 0
        \<and> g (d\<lparr>month := 12, day := 31\<rparr>) = 0
        \<and> g (d\<lparr>month := 12, day := 31, ms := 86399999\<rparr>) = 0
      \<longrightarrow> getDateRange_in g e d Summary
            = \<lparr>start = \<lparr>year = year d, month = 1, day = 1, ms = 0\<rparr>,
               end_date = \<lparr>year = year d, month = 12, day = 31, ms = 86399999\<rparr>\<rparr>
        \<and> getDateRange_in g e d Year
            = \<lparr>start = \<lparr>year = year d, month = 1, day = 1, ms = 0\<rparr>,
               end_date = \<lparr>year = year d, month = 12, day = 31, ms = 86399999\<rparr>\<rparr>"
    using y by blast
  have c2: "g (d\<lparr>day := 1\<rparr>) = 0 \<and> g (d\<lparr>day := 1, ms := 0\<rparr>) = 0
        \<and> g (d\<lparr>day := dim (year d) (month d)\<rparr>) = 0
        \<and> g (d\<lparr>day := dim (year d) (month d), ms := 86399999\<rparr>) = 0
      \<longrightarrow> getDateRange_in g e d Month
            = \<lparr>start = d\<lparr>day := 1, ms := 0\<rparr>,
               end_date = d\<lparr>day := dim (year d) (month d), ms := 86399999\<rparr>\<rparr>"
    using m by blast
  have c3: "g ((startOfWeek 1 d)\<lparr>ms := ms d\<rparr>) = 0 \<and> g (startOfWeek 1 d) = 0
        \<and> g ((endOfWeek 1 d)\<lparr>ms := ms d\<rparr>) = 0 \<and> g (endOfWeek 1 d) = 0
      \<longrightarrow> getDateRange_in g e d Week = \<lparr>start = startOfWeek 1 d, end_date = endOfWeek 1 d\<rparr>
        \<and> getDay (start (getDateRange_in g e d Week)) = 1
        \<and> date_le (start (getDateRange_in g e d Week)) d
        \<and> day_number d - day_number (start (getDateRange_in g e d Week)) = since_monday d
        \<and> ms (start (getDateRange_in g e d Week)) = 0
        \<and> getDay (end_date (getDateRange_in g e d Week)) = 0
        \<and> day_number (end_date (getDateRange_in g e d Week))
            = day_number (start (getDateRange_in g e d Week)) + 6
        \<and> ms (end_date (getDateRange_in g e d Week)) = 86399999"
  proof (intro impI)
    assume a: "g ((startOfWeek 1 d)\<lparr>ms := ms d\<rparr>) = 0 \<and> g (startOfWeek 1 d) = 0
        \<and> g ((endOfWeek 1 d)\<lparr>ms := ms d\<rparr>) = 0 \<and> g (endOfWeek 1 d) = 0"
    then have q: "getDateRange_in g e d Week = getDateRange d Week" by (intro w) simp_all
    show "getDateRange_in g e d Week = \<lparr>start = startOfWeek 1 d, end_date = endOfWeek 1 d\<rparr>
        \<and> getDay (start (getDateRange_in g e d Week)) = 1
        \<and> date_le (start (getDateRange_in g e d Week)) d
        \<and> day_number d - day_number (start (getDateRange_in g e d Week)) = since_monday d
        \<and> ms (start (getDateRange_in g e d Week)) = 0
        \<and> getDay (end_date (getDateRange_in g e d Week)) = 0
        \<and> day_number (end_date (getDateRange_in g e d Week))
            = day_number (start (getDateRange_in g e d Week)) + 6
        \<and> ms (end_date (getDateRange_in g e d Week)) = 86399999"
      unfolding q using l by simp
  qed
  have c4: "0 \<le> since_monday d" "since_monday d \<le> 6" by (rule since_monday_range)+
  have c5: "g (d\<lparr>ms := 0\<rparr>) = 0 \<and> g (d\<lparr>ms := 86399999\<rparr>) = 0
      \<longrightarrow> getDateRange_in g e d Day = \<lparr>start = d\<lparr>ms := 0\<rparr>, end_date = d\<lparr>ms := 86399999\<rparr>\<rparr>
        \<and> iso (start (getDateRange_in g e d Day)) = iso d
        \<and> iso (end_date (getDateRange_in g e d Day)) = iso d"
  proof (intro impI)
    assume a: "g (d\<lparr>ms := 0\<rparr>) = 0 \<and> g (d\<lparr>ms := 86399999\<rparr>) = 0"
    then have q: "getDateRange_in g e d Day = getDateRange d Day" by (intro dd) simp_all
    show "getDateRange_in g e d Day = \<lparr>start = d\<lparr>ms := 0\<rparr>, end_date = d\<lparr>ms := 86399999\<rparr>\<rparr>
        \<and> iso (start (getDateRange_in g e d Day)) = iso d
        \<and> iso (end_date (getDateRange_in g e d Day)) = iso d"
      unfolding q using l by (elim conjE) (intro conjI; assumption)
  qed
  have c6: "g \<lparr>year = 2025, month = 3, day = 3, ms = 0\<rparr> = 0
        \<and> g \<lparr>year = 2025, month = 3, day = 9, ms = 0\<rparr> = 0
        \<and> g \<lparr>year = 2025, month = 3, day = 9, ms = 86399999\<rparr> = 0
      \<longrightarrow> iso (start (getDateRange_in g e \<lparr>year = 2025, month = 3, day = 9, ms = 0\<rparr> Week)) = ''2025-03-03''
        \<and> iso (end_date (getDateRange_in g e \<lparr>year = 2025, month = 3, day = 9, ms = 0\<rparr> Week)) = ''2025-03-09''"
    using x by blast
  from c1 c2 c3 c4 c5 c6 show ?thesis by (intro conjI) assumption+
qed

theorem getDateRange_in_bounds_witness:
  "valid_date \<lparr>year = 2025, month = 3, day = 9, ms = 0\<rparr>
   \<and> new_york_2025_skips \<lparr>year = 2025, month = 3, day = 3, ms = 0\<rparr> = 0
   \<and> new_york_2025_skips \<lparr>year = 2025, month = 3, day = 9, ms = 0\<rparr> = 0
   \<and> new_york_2025_skips \<lparr>year = 2025, month = 3, day = 9, ms = 86399999\<rparr> = 0
   \<and> new_york_2025_skips \<lparr>year = 2025, month = 1, day = 1, ms = 68400000\<rparr> = 0
   \<and> getDateRange_in new_york_2025_skips 68400000 \<lparr>year = 2025, month = 3, day = 9, ms = 0\<rparr> Week
       = \<lparr>start = \<lparr>year = 2025, month = 3, day = 3, ms = 0\<rparr>,
          end_date = \<lparr>year = 2025, month = 3, day = 9, ms = 86399999\<rparr>\<rparr>
   \<and> getDateRange_in new_york_2025_skips 68400000 \<lparr>year = 2025, month = 3, day = 9, ms = 0\<rparr> Day
       = \<lparr>start = \<lparr>year = 2025, month = 3, day = 9, ms = 0\<rparr>,
          end_date = \<lparr>year = 2025, month = 3, day = 9, ms = 86399999\<rparr>\<rparr>
   \<and> getDateRange_in new_york_2025_skips 68400000 \<lparr>year = 2025, month = 3, day = 9, ms = 0\<rparr> Month
       = \<lparr>start = \<lparr>year = 2025, month = 3, day = 1, ms = 0\<rparr>,
          end_date = \<lparr>year = 2025, month = 3, day = 31, ms = 86399999\<rparr>\<rparr>
   \<and> getDateRange_in new_york_2025_skips 68400000 \<lparr>year = 2025, month = 3, day = 9, ms = 0\<rparr> Summary
       = \<lparr>start = \<lparr>year = 2025, month = 1, day = 1, ms = 0\<rparr>,
          end_date = \<lparr>year = 2025, month = 12, day = 31, ms = 86399999\<rparr>\<rparr>
   \<and> iso (start (getDateRange_in new_york_2025_skips 68400000
        \<lparr>year = 2025, month = 3, day = 9, ms = 0\<rparr> Week)) = ''2025-03-03''
   \<and> iso (end_date (getDateRange_in new_york_2025_skips 68400000
        \<lparr>year = 2025, month = 3, day = 9, ms = 0\<rparr> Week)) = ''2025-03-09''"
proof -
  let ?d = "\<lparr>year = 2025, month = 3, day = 9, ms = 0\<rparr>"
  let ?g = new_york_2025_skips
  have v: "valid_date ?d" by (simp add: valid_date_def dim_def)
  have e: "(0::int) \<le> 68400000" "(68400000::int) < 86400000" by simp_all
  note t = getDateRange_in_bounds[OF v e, of ?g]
  have g: "?g \<lparr>year = 2025, month = 3, day = 3, ms = 0\<rparr> = 0"
    "?g \<lparr>year = 2025, month = 3, day = 9, ms = 0\<rparr> = 0"
    "?g \<lparr>year = 2025, month = 3, day = 9, ms = 86399999\<rparr> = 0"
    "?g \<lparr>year = 2025, month = 1, day = 1, ms = 68400000\<rparr> = 0"
    by (simp_all add: new_york_2025_skips_def)
  have hy: "?g \<lparr>year = year ?d, month = 1, day = 1, ms = 68400000\<rparr> = 0
      \<and> ?g \<lparr>year = year ?d, month = 1, day = 1, ms = 0\<rparr> = 0
      \<and> ?g (?d\<lparr>month := 12, day := 31\<rparr>) = 0
      \<and> ?g (?d\<lparr>month := 12, day := 31, ms := 86399999\<rparr>) = 0"
    by (simp add: new_york_2025_skips_def)
  have hm: "?g (?d\<lparr>day := 1\<rparr>) = 0 \<and> ?g (?d\<lparr>day := 1, ms := 0\<rparr>) = 0
      \<and> ?g (?d\<lparr>day := dim (year ?d) (month ?d)\<rparr>) = 0
      \<and> ?g (?d\<lparr>day := dim (year ?d) (month ?d), ms := 86399999\<rparr>) = 0"
    by (simp add: new_york_2025_skips_def dim_def)
  have hw: "?g ((startOfWeek 1 ?d)\<lparr>ms := ms ?d\<rparr>) = 0 \<and> ?g (startOfWeek 1 ?d) = 0
      \<and> ?g ((endOfWeek 1 ?d)\<lparr>ms := ms ?d\<rparr>) = 0 \<and> ?g (endOfWeek 1 ?d) = 0"
    unfolding week_of_2025_03_09 by (simp add: new_york_2025_skips_def)
  have hd: "?g (?d\<lparr>ms := 0\<rparr>) = 0 \<and> ?g (?d\<lparr>ms := 86399999\<rparr>) = 0"
    by (simp add: new_york_2025_skips_def)
  have hx: "?g \<lparr>year = 2025, month = 3, day = 3, ms = 0\<rparr> = 0
      \<and> ?g \<lparr>year = 2025, month = 3, day = 9, ms = 0\<rparr> = 0
      \<and> ?g \<lparr>year = 2025, month = 3, day = 9, ms = 86399999\<rparr> = 0"
    using g by simp
  have ry: "getDateRange_in ?g 68400000 ?d Summary
       = \<lparr>start = \<lparr>year = 2025, month = 1, day = 1, ms = 0\<rparr>,
          end_date = \<lparr>year = 2025, month = 12, day = 31, ms = 86399999\<rparr>\<rparr>"
    using t[THEN conjunct1, THEN mp, OF hy, THEN conjunct1] by simp
  have rm: "getDateRange_in ?g 68400000 ?d Month
       = \<lparr>start = \<lparr>year = 2025, month = 3, day = 1, ms = 0\<rparr>,
          end_date = \<lparr>year = 2025, month = 3, day = 31, ms = 86399999\<rparr>\<rparr>"
    using t[THEN conjunct2, THEN conjunct1, THEN mp, OF hm] by (simp add: dim_def)
  have rw: "getDateRange_in ?g 68400000 ?d Week
       = \<lparr>start = \<lparr>year = 2025, month = 3, day = 3, ms = 0\<rparr>,
          end_date = \<lparr>year = 2025, month = 3, day = 9, ms = 86399999\<rparr>\<rparr>"
    using t[THEN conjunct2, THEN conjunct2, THEN conjunct1, THEN mp, OF hw, THEN conjunct1]
    unfolding week_of_2025_03_09 .
  have rd: "getDateRange_in ?g 68400000 ?d Day
       = \<lparr>start = \<lparr>year = 2025, month = 3, day = 9, ms = 0\<rparr>,
          end_date = \<lparr>year = 2025, month = 3, day = 9, ms = 86399999\<rparr>\<rparr>"
    using t[THEN conjunct2, THEN conjunct2, THEN conjunct2, THEN conjunct2, THEN conjunct2,
        THEN conjunct1, THEN mp, OF hd, THEN conjunct1]
    by simp
  note rx = t[THEN conjunct2, THEN conjunct2, THEN conjunct2, THEN conjunct2, THEN conjunct2,
        THEN conjunct2, THEN mp, OF hx]
  from v g(1) g(2) g(3) g(4) rw rd rm ry rx[THEN conjunct1] rx[THEN conjunct2]
  show ?thesis by (intro conjI)
qed

text \<open>
  In Nuuk the clocks went forward at 23:00 on 2025-03-29, so 23:59:59.999 of that day
  does not exist: \<open>endOfDay\<close> of 2025-03-29 is 2025-03-30 00:59:59.999, and the range of
  the scope day ends on the day after \<open>d\<close>. In Havana the clocks went forward at 00:00 on
  2025-03-09, where the day starts at 01:00.
\<close>

theorem getDateRange_in_nuuk_2025:
  "valid_date \<lparr>year = 2025, month = 3, day = 29, ms = 0\<rparr>
   \<and> nuuk_2025_skips \<lparr>year = 2025, month = 3, day = 29, ms = 0\<rparr> = 0
   \<and> getDateRange_in nuuk_2025_skips 75600000 \<lparr>year = 2025, month = 3, day = 29, ms = 0\<rparr> Day
       = \<lparr>start = \<lparr>year = 2025, month = 3, day = 29, ms = 0\<rparr>,
          end_date = \<lparr>year = 2025, month = 3, day = 30, ms = 3599999\<rparr>\<rparr>
   \<and> iso \<lparr>year = 2025, month = 3, day = 29, ms = 0\<rparr> = ''2025-03-29''
   \<and> iso (end_date (getDateRange_in nuuk_2025_skips 75600000
        \<lparr>year = 2025, month = 3, day = 29, ms = 0\<rparr> Day)) = ''2025-03-30''
   \<and> start (getDateRange_in havana_2025_skips 68400000 \<lparr>year = 2025, month = 3, day = 9, ms = 3600000\<rparr> Day)
       = \<lparr>year = 2025, month = 3, day = 9, ms = 3600000\<rparr>"
  by code_simp

section \<open>Breadcrumbs and the week of the month\<close>

text \<open>
  C5. For every date \<open>d\<close> and scope, both versions of \<open>renderBreadcrumbs\<close> produce, in
  this order: the crumb Summary; the year of \<open>d\<close>; the month name of \<open>d\<close> exactly when the
  scope is week, month or day; a week-of-month crumb exactly when the scope is week; a
  formatted day crumb exactly when the scope is day. Year and month are those of \<open>d\<close>
  itself also when the week of \<open>d\<close> begins in the month or year before: Saturday 2025-03-01
  and Wednesday 2025-01-01 are labelled 2025, March, Week 1 and 2025, January, Week 1,
  though their weeks begin on 2025-02-24 and 2024-12-30.
\<close>

theorem renderBreadcrumbs_crumbs:
  "renderBreadcrumbs z d sc =
     [\<lparr>label = ''Summary'', crumb_scope = Summary, link = True\<rparr>,
      \<lparr>label = format_yyyy d, crumb_scope = Year, link = True\<rparr>]
     @ (if sc = Week \<or> sc = Month \<or> sc = Day
        then [\<lparr>label = format_LLLL d, crumb_scope = Month, link = True\<rparr>] else [])
     @ (if sc = Week
        then [\<lparr>label = ''Week '' @ show_int (weekOfMonth z d), crumb_scope = Week, link = False\<rparr>] else [])
     @ (if sc = Day
        then [\<lparr>label = format_MMM_do d, crumb_scope = Day, link = False\<rparr>] else [])
   \<and> renderBreadcrumbs_v2 z d sc =
     [\<lparr>label = ''Summary'', crumb_scope = Summary, link = True\<rparr>,
      \<lparr>label = format_yyyy d, crumb_scope = Year, link = True\<rparr>]
     @ (if sc = Week \<or> sc = Month \<or> sc = Day
        then [\<lparr>label = format_LLLL d, crumb_scope = Month, link = True\<rparr>] else [])
     @ (if sc = Week
        then [\<lparr>label = ''Week '' @ show_int (weekOfMonth z d), crumb_scope = Week, link = False\<rparr>] else [])
     @ (if sc = Day
        then [\<lparr>label = format_d_M_yyyy d, crumb_scope = Day, link = False\<rparr>] else [])
   \<and> map label (renderBreadcrumbs utc \<lparr>year = 2025, month = 3, day = 1, ms = 0\<rparr> Week)
       = [''Summary'', ''2025'', ''March'', ''Week 1'']
   \<and> iso (startOfWeek 1 \<lparr>year = 2025, month = 3, day = 1, ms = 0\<rparr>) = ''2025-02-24''
   \<and> map label (renderBreadcrumbs_v2 utc \<lparr>year = 2025, month = 1, day = 1, ms = 0\<rparr> Week)
       = [''Summary'', ''2025'', ''January'', ''Week 1'']
   \<and> iso (startOfWeek 1 \<lparr>year = 2025, month = 1, day = 1, ms = 0\<rparr>) = ''2024-12-30''
   \<and> map label (renderBreadcrumbs utc \<lparr>year = 2025, month = 3, day = 9, ms = 0\<rparr> Day)
       = [''Summary'', ''2025'', ''March'', ''Mar 9th'']
   \<and> map label (renderBreadcrumbs_v2 utc \<lparr>year = 2025, month = 3, day = 9, ms = 0\<rparr> Day)
       = [''Summary'', ''2025'', ''March'', ''9.3.2025'']"
proof -
  have a: "renderBreadcrumbs z d sc =
     [\<lparr>label = ''Summary'', crumb_scope = Summary, link = True\<rparr>,
      \<lparr>label = format_yyyy d, crumb_scope = Year, link = True\<rparr>]
     @ (if sc = Week \<or> sc = Month \<or> sc = Day
        then [\<lparr>label = format_LLLL d, crumb_scope = Month, link = True\<rparr>] else [])
     @ (if sc = Week
        then [\<lparr>label = ''Week '' @ show_int (weekOfMonth z d), crumb_scope = Week, link = False\<rparr>] else [])
     @ (if sc = Day
        then [\<lparr>label = format_MMM_do d, crumb_scope = Day, link = False\<rparr>] else [])"
    by (cases sc) (simp_all add: renderBreadcrumbs_def breadcrumbs_def Let_def)
  have b: "renderBreadcrumbs_v2 z d sc =
     [\<lparr>label = ''Summary'', crumb_scope = Summary, link = True\<rparr>,
      \<lparr>label = format_yyyy d, crumb_scope = Year, link = True\<rparr>]
     @ (if sc = Week \<or> sc = Month \<or> sc = Day
        then [\<lparr>label = format_LLLL d, crumb_scope = Month, link = True\<rparr>] else [])
     @ (if sc = Week
        then [\<lparr>label = ''Week '' @ show_int (weekOfMonth z d), crumb_scope = Week, link = False\<rparr>] else [])
     @ (if sc = Day
        then [\<lparr>label = format_d_M_yyyy d, crumb_scope = Day, link = False\<rparr>] else [])"
    by (cases sc) (simp_all add: renderBreadcrumbs_v2_def breadcrumbs_def Let_def)
  have x1: "map label (renderBreadcrumbs utc \<lparr>year = 2025, month = 3, day = 1, ms = 0\<rparr> Week)
       = [''Summary'', ''2025'', ''March'', ''Week 1'']"
    by code_simp
  have x2: "iso (startOfWeek 1 \<lparr>year = 2025, month = 3, day = 1, ms = 0\<rparr>) = ''2025-02-24''"
    by code_simp
  have x3: "map label (renderBreadcrumbs_v2 utc \<lparr>year = 2025, month = 1, day = 1, ms = 0\<rparr> Week)
       = [''Summary'', ''2025'', ''January'', ''Week 1'']"
    by code_simp
  have x4: "iso (startOfWeek 1 \<lparr>year = 2025, month = 1, day = 1, ms = 0\<rparr>) = ''2024-12-30''"
    by code_simp
  have x5: "map label (renderBreadcrumbs utc \<lparr>year = 2025, month = 3, day = 9, ms = 0\<rparr> Day)
       = [''Summary'', ''2025'', ''March'', ''Mar 9th'']"
    by code_simp
  have x6: "map label (renderBreadcrumbs_v2 utc \<lparr>year = 2025, month = 3, day = 9, ms = 0\<rparr> Day)
       = [''Summary'', ''2025'', ''March'', ''9.3.2025'']"
    by code_simp
  from a b x1 x2 x3 x4 x5 x6 show ?thesis by (intro conjI)
qed

subsection \<open>The week of the month\<close>

lemma getTime_diff:
  "getTime z a - getTime z b
     = (day_number a - day_number b) * 86400000 + (ms a - ms b) - (z a - z b)"
  by (simp add: getTime_def algebra_simps)

lemma week_ms: "7 * 24 * 3600 * 1000 = (7 * 86400000 :: int)"
  by simp

lemma div_week: "(k * 86400000) div (7 * 86400000) = k div (7 :: int)"
  by (rule div_mult_mult2) simp

lemma monday_diff:
  assumes "getDay a = 1" "getDay b = 1"
  shows "(day_number a - day_number b) mod 7 = 0"
  using assms unfolding getDay_def by presburger

text \<open>
  Where the zone has the same offset at both week starts, the computed number is one more
  than the number of calendar weeks between the two Mondays.
\<close>

lemma weekOfMonth_same_offset:
  assumes "valid_date d"
    and "z (startOfWeek 1 d) = z (startOfWeek 1 (startOfMonth d))"
  shows "weekOfMonth z d
      = (day_number (startOfWeek 1 d) - day_number (startOfWeek 1 (startOfMonth d))) div 7 + 1"
    and "(day_number (startOfWeek 1 d) - day_number (startOfWeek 1 (startOfMonth d))) mod 7 = 0"
proof -
  have vm: "valid_date (startOfMonth d)"
    using assms(1) by (simp add: startOfMonth_eq valid_date_def)
  let ?c = "startOfWeek 1 d" and ?f = "startOfWeek 1 (startOfMonth d)"
  have "getTime z ?c - getTime z ?f = (day_number ?c - day_number ?f) * 86400000"
    unfolding getTime_diff
    using startOfWeek_props(2)[OF assms(1)] startOfWeek_props(2)[OF vm] assms(2) by simp
  then show "weekOfMonth z d = (day_number ?c - day_number ?f) div 7 + 1"
    unfolding weekOfMonth_def Let_def week_ms by (simp only: div_week)
  show "(day_number ?c - day_number ?f) mod 7 = 0"
    using startOfWeek_monday[OF assms(1)] startOfWeek_monday[OF vm] by (rule monday_diff)
qed

lemma prev_day_set_ms: "prev_day (d\<lparr>ms := t\<rparr>) = (prev_day d)\<lparr>ms := t\<rparr>"
  by (simp add: prev_day_def)

lemma back_days_set_ms: "back_days n (d\<lparr>ms := t\<rparr>) = (back_days n d)\<lparr>ms := t\<rparr>"
  by (induction n arbitrary: d) (simp_all add: prev_day_set_ms)

lemma back_days_add: "back_days a (back_days b d) = back_days (a + b) d"
  by (induction b arbitrary: d) simp_all

lemma first_week_start:
  assumes "valid_date d"
  shows "startOfWeek 1 (startOfMonth d)
      = (back_days (nat (since_monday (startOfMonth d)) + nat (day d - 1)) d)\<lparr>ms := 0\<rparr>"
proof -
  have d1: "1 \<le> day d" using assms by (simp add: valid_date_def)
  have "startOfMonth d = (back_days (nat (day d - 1)) d)\<lparr>ms := 0\<rparr>"
    unfolding startOfMonth_eq back_to_first[OF d1 refl] by simp
  then show ?thesis
    unfolding startOfWeek_eq[of "startOfMonth d"]
    by (simp add: back_days_set_ms back_days_add)
qed

lemma mod7_same:
  fixes a b :: int
  shows "0 \<le> a \<Longrightarrow> a < 7 \<Longrightarrow> 0 \<le> b \<Longrightarrow> b < 7 \<Longrightarrow> (a - b) mod 7 = 0 \<Longrightarrow> a = b"
  by presburger

text \<open>
  In every zone the number is 1 for a date fewer than seven days after the Monday on or
  before the first of its month.
\<close>

lemma weekOfMonth_first_week:
  assumes "valid_date d"
    and "day_number d - day_number (startOfWeek 1 (startOfMonth d)) < 7"
  shows "weekOfMonth z d = 1"
proof -
  have vm: "valid_date (startOfMonth d)"
    using assms(1) by (simp add: startOfMonth_eq valid_date_def)
  let ?k = "nat (since_monday d)"
  let ?j = "nat (since_monday (startOfMonth d)) + nat (day d - 1)"
  have f: "startOfWeek 1 (startOfMonth d) = (back_days ?j d)\<lparr>ms := 0\<rparr>"
    by (rule first_week_start[OF assms(1)])
  have nf: "day_number (startOfWeek 1 (startOfMonth d)) = day_number d - int ?j"
    unfolding f using back_days_props[OF assms(1), of ?j] by simp
  have nc: "day_number (startOfWeek 1 d) = day_number d - int ?k"
    using startOfWeek_props(3)[OF assms(1)] since_monday_range(1)[of d] by simp
  have m: "(day_number (startOfWeek 1 d) - day_number (startOfWeek 1 (startOfMonth d))) mod 7 = 0"
    using startOfWeek_monday[OF assms(1)] startOfWeek_monday[OF vm] by (rule monday_diff)
  have j7: "int ?j < 7" using assms(2) nf by simp
  have k7: "int ?k < 7" using since_monday_range[of d] by simp
  have e: "(int ?j - int ?k) mod 7 = 0"
  proof -
    have "day_number d - int ?k - (day_number d - int ?j) = int ?j - int ?k" by simp
    with m show ?thesis unfolding nf nc by simp
  qed
  have j0: "0 \<le> int ?j" and k0: "0 \<le> int ?k" by simp_all
  have "int ?j = int ?k" by (rule mod7_same[OF j0 j7 k0 k7 e])
  then have "?j = ?k" by (simp only: of_nat_eq_iff)
  then have "startOfWeek 1 (startOfMonth d) = startOfWeek 1 d"
    unfolding f startOfWeek_eq[of d] by simp
  then show ?thesis by (simp add: weekOfMonth_def Let_def)
qed

text \<open>
  C6. The week-of-month number should be one more than the number of Monday-aligned weeks
  between the week start of the first of the month and the week start of \<open>d\<close>. The client
  divides the difference of the two \<open>getTime()\<close> values by the length of a week of 168
  hours and rounds down. In New York, Monday 2025-03-10 lies two calendar weeks after
  Monday 2025-02-24, the week start of 2025-03-01, so its week is the third; daylight-saving
  time began on 2025-03-09, the two Mondays are one hour less than 336 hours apart, and
  the client computes 2, the number it also gives to the week of 2025-03-03. In a zone
  without a change of offset it computes 3.
\<close>

theorem weekOfMonth_new_york_march_2025:
  "weekOfMonth new_york_2025 \<lparr>year = 2025, month = 3, day = 10, ms = 0\<rparr> = 2
   \<and> weekOfMonth new_york_2025 \<lparr>year = 2025, month = 3, day = 3, ms = 0\<rparr> = 2
   \<and> weekOfMonth utc \<lparr>year = 2025, month = 3, day = 10, ms = 0\<rparr> = 3
   \<and> (day_number (startOfWeek 1 \<lparr>year = 2025, month = 3, day = 10, ms = 0\<rparr>)
        - day_number (startOfWeek 1 (startOfMonth \<lparr>year = 2025, month = 3, day = 10, ms = 0\<rparr>))) div 7 + 1 = 3
   \<and> getTime new_york_2025 (startOfWeek 1 \<lparr>year = 2025, month = 3, day = 10, ms = 0\<rparr>)
       - getTime new_york_2025 (startOfWeek 1 (startOfMonth \<lparr>year = 2025, month = 3, day = 10, ms = 0\<rparr>))
       = 2 * (7 * 24 * 3600 * 1000) - 3600 * 1000"
  by code_simp

section \<open>Prompts and the analysis request\<close>

subsection \<open>The prompt selector\<close>

lemma js_slice_prefix: "0 \<le> k \<Longrightarrow> js_slice xs 0 k = take (nat k) xs"
  by (simp add: js_slice_def Let_def min_def)

lemma fold_increment:
  "fold (\<lambda>n c. increment c (sentiment (analysis n))) ns c0
     = \<lparr>positive_count = positive_count c0 + count_sentiment Positive ns,
        neutral_count = neutral_count c0 + count_sentiment Neutral ns,
        negative_count = negative_count c0 + count_sentiment Negative ns\<rparr>"
proof (induction ns arbitrary: c0)
  case Nil
  then show ?case by (simp add: count_sentiment_def)
next
  case (Cons n ns)
  show ?case
    by (cases "sentiment (analysis n)") (simp_all add: Cons.IH count_sentiment_def)
qed

lemma getRecentSentiment_counts:
  "getRecentSentiment st =
     (if note_list st = [] then Neutral
      else if count_sentiment Positive (take 3 (note_list st))
                = max (max (count_sentiment Positive (take 3 (note_list st)))
                           (count_sentiment Neutral (take 3 (note_list st))))
                      (count_sentiment Negative (take 3 (note_list st)))
           then Positive
      else if count_sentiment Negative (take 3 (note_list st))
                = max (max (count_sentiment Positive (take 3 (note_list st)))
                           (count_sentiment Neutral (take 3 (note_list st))))
                      (count_sentiment Negative (take 3 (note_list st)))
           then Negative
      else Neutral)"
proof -
  have s: "js_slice (note_list st) 0 3 = take 3 (note_list st)"
    using js_slice_prefix[of 3 "note_list st"] by simp
  show ?thesis
    unfolding getRecentSentiment_def Let_def s fold_increment by simp
qed

lemma pick_in_pool:
  assumes "0 \<le> r" "r < 1" "pool \<noteq> []"
  shows "at_index pool \<lfloor>r * real (length pool)\<rfloor> \<in> set pool"
proof -
  let ?n = "length pool"
  have n: "0 < real ?n" using assms(3) by simp
  have "0 \<le> r * real ?n" using assms(1) by simp
  then have lo: "0 \<le> \<lfloor>r * real ?n\<rfloor>" by simp
  have "r * real ?n < 1 * real ?n" using assms(2) n by (intro mult_strict_right_mono)
  then have "r * real ?n < real_of_int (int ?n)" by simp
  then have hi: "\<lfloor>r * real ?n\<rfloor> < int ?n" by (simp only: floor_less_iff)
  have "nat \<lfloor>r * real ?n\<rfloor> < ?n" by (rule iffD2[OF nat_less_iff[OF lo] hi])
  then have "pool ! nat \<lfloor>r * real ?n\<rfloor> \<in> set pool" by (rule nth_mem)
  with lo hi show ?thesis by (simp add: at_index_def)
qed

lemma pools_nonempty:
  "PROMPTS_yearly \<noteq> []" "PROMPTS_monthly \<noteq> []" "PROMPTS_weekend \<noteq> []" "PROMPTS_daily s \<noteq> []"
  by (simp_all add: PROMPTS_yearly_def PROMPTS_monthly_def PROMPTS_weekend_def, cases s, simp_all)

text \<open>The tier that the conditions of \<open>choosePrompt\<close> select, and its prefix.\<close>

lemma choosePrompt_yearly:
  assumes "0 \<le> r" "r < 1" "dayOfYear z now \<le> 7 \<or> 358 \<le> dayOfYear z now"
  shows "\<exists>p\<in>set PROMPTS_yearly. choosePrompt z now st r = ''Year-end reflection: '' @ p"
  using pick_in_pool[OF assms(1,2) pools_nonempty(1)] assms(3)
  by (simp add: choosePrompt_def Let_def)

lemma choosePrompt_monthly:
  assumes "0 \<le> r" "r < 1" "\<not> (dayOfYear z now \<le> 7 \<or> 358 \<le> dayOfYear z now)"
    "day now \<le> 3 \<or> 28 \<le> day now"
  shows "\<exists>p\<in>set PROMPTS_monthly. choosePrompt z now st r = ''Monthly reflection: '' @ p"
  using pick_in_pool[OF assms(1,2) pools_nonempty(2)] assms(3,4)
  by (simp add: choosePrompt_def Let_def)

lemma choosePrompt_weekend:
  assumes "0 \<le> r" "r < 1" "\<not> (dayOfYear z now \<le> 7 \<or> 358 \<le> dayOfYear z now)"
    "\<not> (day now \<le> 3 \<or> 28 \<le> day now)" "isWeekend now"
  shows "\<exists>p\<in>set PROMPTS_weekend. choosePrompt z now st r = ''Week reflection: '' @ p"
  using pick_in_pool[OF assms(1,2) pools_nonempty(3)] assms(3,4,5)
  by (simp add: choosePrompt_def Let_def)

lemma choosePrompt_daily:
  assumes "0 \<le> r" "r < 1" "\<not> (dayOfYear z now \<le> 7 \<or> 358 \<le> dayOfYear z now)"
    "\<not> (day now \<le> 3 \<or> 28 \<le> day now)" "\<not> isWeekend now"
  shows "\<exists>p\<in>set (PROMPTS_daily (getRecentSentiment st)). choosePrompt z now st r = ''Daily prompt: '' @ p"
  using pick_in_pool[OF assms(1,2) pools_nonempty(4)[of "getRecentSentiment st"]] assms(3,4,5)
  by (simp add: choosePrompt_def Let_def)

lemma isWeekend_days: "isWeekend now = (getDay now = 5 \<or> getDay now = 6 \<or> getDay now = 0)"
  by (auto simp: isWeekend_def Let_def)

lemma newDate_y00_fields:
  assumes "\<not> (0 \<le> y \<and> y \<le> 99)"
  shows "day_number (newDate_y00 y) = days_before_year y - 1" "ms (newDate_y00 y) = 0"
proof -
  let ?j = "\<lparr>year = y, month = 1, day = 1, ms = 0\<rparr>"
  have v: "valid_date ?j" by (simp add: valid_date_def dim_def)
  have "(if 0 \<le> y \<and> y \<le> 99 then 1900 + y else y) = y" using assms by (rule if_not_P)
  then have n: "newDate_y00 y = prev_day ?j" unfolding newDate_y00_def by (simp only:)
  have "day_number ?j = days_before_year y" by (simp add: day_number_def days_before_month_def)
  with prev_day_number[OF v] show "day_number (newDate_y00 y) = days_before_year y - 1"
    unfolding n by simp
  show "ms (newDate_y00 y) = 0" unfolding n by (simp add: prev_day_ms)
qed

lemma day_ms: "1000 * 60 * 60 * 24 = (86400000 :: int)"
  by simp

text \<open>
  The computed day of the year is the calendar day of the year plus the whole days in the
  milliseconds since local midnight, less the change of the zone's offset since midnight
  of last 31 December.
\<close>

lemma dayOfYear_eq:
  assumes "valid_date now" "\<not> (0 \<le> year now \<and> year now \<le> 99)"
  shows "dayOfYear z now
      = ordinal_day now + (ms now - (z now - z (newDate_y00 (year now)))) div 86400000"
proof -
  let ?e = "newDate_y00 (year now)"
  have "day_number now - day_number ?e = ordinal_day now"
    unfolding newDate_y00_fields(1)[OF assms(2)] by (simp add: day_number_def ordinal_day_def)
  then have "getTime z now - getTime z ?e
      = (ms now - (z now - z ?e)) + ordinal_day now * 86400000"
    unfolding getTime_diff newDate_y00_fields(2)[OF assms(2)] by simp
  then have "dayOfYear z now = ((ms now - (z now - z ?e)) + ordinal_day now * 86400000) div 86400000"
    unfolding dayOfYear_def day_ms by simp
  also have "\<dots> = ordinal_day now + (ms now - (z now - z ?e)) div 86400000"
    by (rule div_mult_self1) simp
  finally show ?thesis .
qed

lemma dayOfYear_ordinal:
  assumes "valid_date now" "\<not> (0 \<le> year now \<and> year now \<le> 99)"
    "z now = z (newDate_y00 (year now))"
  shows "dayOfYear z now = ordinal_day now"
proof -
  have "0 \<le> ms now" "ms now < 86400000" using assms(1) by (simp_all add: valid_date_def)
  then have "ms now div 86400000 = 0" by (rule div_pos_pos_trivial)
  then show ?thesis unfolding dayOfYear_eq[OF assms(1,2)] assms(3)[symmetric] by simp
qed

lemma dayOfYear_near:
  assumes "valid_date now" "\<not> (0 \<le> year now \<and> year now \<le> 99)"
    "\<bar>z now - z (newDate_y00 (year now))\<bar> \<le> 86400000"
  shows "ordinal_day now - 1 \<le> dayOfYear z now" "dayOfYear z now \<le> ordinal_day now + 1"
proof -
  let ?x = "ms now - (z now - z (newDate_y00 (year now)))"
  have m: "0 \<le> ms now" "ms now < 86400000" using assms(1) by (simp_all add: valid_date_def)
  have lo: "- 86400000 \<le> ?x" and hi: "?x \<le> 172799999" using m assms(3) by simp_all
  have "(- 86400000) div 86400000 \<le> ?x div 86400000" using lo by (rule zdiv_mono1) simp
  then have a: "- 1 \<le> ?x div 86400000" by simp
  have "?x div 86400000 \<le> 172799999 div 86400000" using hi by (rule zdiv_mono1) simp
  then have b: "?x div 86400000 \<le> 1" by simp
  show "ordinal_day now - 1 \<le> dayOfYear z now" "dayOfYear z now \<le> ordinal_day now + 1"
    unfolding dayOfYear_eq[OF assms(1,2)] using a b by simp_all
qed

text \<open>
  \<open>choosePrompt\<close> selects its tier in this order: the yearly pool, with the prefix
  "Year-end reflection: ", if the day count is at most 7 or at least 358; otherwise the
  monthly pool, with "Monthly reflection: ", if the day of the month is at most 3 or at
  least 28; otherwise the weekend pool, with "Week reflection: ", on a Friday, Saturday or
  Sunday; otherwise the daily pool of the recent sentiment, with "Daily prompt: ". The
  returned text is the prefix followed by a prompt of that pool. The day count is the one
  \<open>choosePrompt\<close> computes, the whole periods of 24 hours since local midnight of last
  31 December, and not the calendar day of the year: the two are equal when the zone has
  the same offset now as at that midnight, and then the four tiers are selected on the
  calendar day of the year; they are at most one day apart when the offsets differ by a
  day or less, so on the calendar days 365 and 1 of a year the text begins with
  "Year-end reflection: ".
\<close>

theorem choosePrompt_tiers:
  assumes "0 \<le> r" "r < 1"
  shows
    "(dayOfYear z now \<le> 7 \<or> 358 \<le> dayOfYear z now \<longrightarrow>
        (\<exists>p\<in>set PROMPTS_yearly. choosePrompt z now st r = ''Year-end reflection: '' @ p))
     \<and> (\<not> (dayOfYear z now \<le> 7 \<or> 358 \<le> dayOfYear z now) \<and> (day now \<le> 3 \<or> 28 \<le> day now) \<longrightarrow>
        (\<exists>p\<in>set PROMPTS_monthly. choosePrompt z now st r = ''Monthly reflection: '' @ p))
     \<and> (\<not> (dayOfYear z now \<le> 7 \<or> 358 \<le> dayOfYear z now) \<and> \<not> (day now \<le> 3 \<or> 28 \<le> day now)
          \<and> (getDay now = 5 \<or> getDay now = 6 \<or> getDay now = 0) \<longrightarrow>
        (\<exists>p\<in>set PROMPTS_weekend. choosePrompt z now st r = ''Week reflection: '' @ p))
     \<and> (\<not> (dayOfYear z now \<le> 7 \<or> 358 \<le> dayOfYear z now) \<and> \<not> (day now \<le> 3 \<or> 28 \<le> day now)
          \<and> \<not> (getDay now = 5 \<or> getDay now = 6 \<or> getDay now = 0) \<longrightarrow>
        (\<exists>p\<in>set (PROMPTS_daily (getRecentSentiment st)).
           choosePrompt z now st r = ''Daily prompt: '' @ p))
     \<and> (dayOfYear z now = 365 \<or> dayOfYear z now = 1 \<longrightarrow>
        take 21 (choosePrompt z now st r) = ''Year-end reflection: '')
     \<and> (valid_date now \<and> \<not> (0 \<le> year now \<and> year now \<le> 99)
          \<and> z now = z (newDate_y00 (year now)) \<longrightarrow>
        dayOfYear z now = ordinal_day now)
     \<and> (valid_date now \<and> \<not> (0 \<le> year now \<and> year now \<le> 99)
          \<and> \<bar>z now - z (newDate_y00 (year now))\<bar> \<le> 86400000
          \<and> (ordinal_day now = 365 \<or> ordinal_day now = 1) \<longrightarrow>
        take 21 (choosePrompt z now st r) = ''Year-end reflection: '')
     \<and> (valid_date now \<and> \<not> (0 \<le> year now \<and> year now \<le> 99)
          \<and> z now = z (newDate_y00 (year now)) \<longrightarrow>
        (ordinal_day now \<le> 7 \<or> 358 \<le> ordinal_day now \<longrightarrow>
           (\<exists>p\<in>set PROMPTS_yearly. choosePrompt z now st r = ''Year-end reflection: '' @ p))
        \<and> (\<not> (ordinal_day now \<le> 7 \<or> 358 \<le> ordinal_day now) \<and> (day now \<le> 3 \<or> 28 \<le> day now) \<longrightarrow>
           (\<exists>p\<in>set PROMPTS_monthly. choosePrompt z now st r = ''Monthly reflection: '' @ p))
        \<and> (\<not> (ordinal_day now \<le> 7 \<or> 358 \<le> ordinal_day now) \<and> \<not> (day now \<le> 3 \<or> 28 \<le> day now)
             \<and> (getDay now = 5 \<or> getDay now = 6 \<or> getDay now = 0) \<longrightarrow>
           (\<exists>p\<in>set PROMPTS_weekend. choosePrompt z now st r = ''Week reflection: '' @ p))
        \<and> (\<not> (ordinal_day now \<le> 7 \<or> 358 \<le> ordinal_day now) \<and> \<not> (day now \<le> 3 \<or> 28 \<le> day now)
             \<and> \<not> (getDay now = 5 \<or> getDay now = 6 \<or> getDay now = 0) \<longrightarrow>
           (\<exists>p\<in>set (PROMPTS_daily (getRecentSentiment st)).
              choosePrompt z now st r = ''Daily prompt: '' @ p)))"
proof -
  have yearly: "take 21 (choosePrompt z now st r) = ''Year-end reflection: ''"
    if "dayOfYear z now \<le> 7 \<or> 358 \<le> dayOfYear z now"
  proof -
    from choosePrompt_yearly[OF assms that, of st]
    obtain p where "choosePrompt z now st r = ''Year-end reflection: '' @ p" by blast
    then show ?thesis by simp
  qed
  have c5: "dayOfYear z now = 365 \<or> dayOfYear z now = 1 \<longrightarrow>
        take 21 (choosePrompt z now st r) = ''Year-end reflection: ''"
  proof
    assume "dayOfYear z now = 365 \<or> dayOfYear z now = 1"
    then have "dayOfYear z now \<le> 7 \<or> 358 \<le> dayOfYear z now" by auto
    then show "take 21 (choosePrompt z now st r) = ''Year-end reflection: ''" by (rule yearly)
  qed
  have c7: "valid_date now \<and> \<not> (0 \<le> year now \<and> year now \<le> 99)
          \<and> \<bar>z now - z (newDate_y00 (year now))\<bar> \<le> 86400000
          \<and> (ordinal_day now = 365 \<or> ordinal_day now = 1) \<longrightarrow>
        take 21 (choosePrompt z now st r) = ''Year-end reflection: ''"
  proof
    assume a: "valid_date now \<and> \<not> (0 \<le> year now \<and> year now \<le> 99)
          \<and> \<bar>z now - z (newDate_y00 (year now))\<bar> \<le> 86400000
          \<and> (ordinal_day now = 365 \<or> ordinal_day now = 1)"
    then have n: "ordinal_day now - 1 \<le> dayOfYear z now" "dayOfYear z now \<le> ordinal_day now + 1"
      by (simp_all add: dayOfYear_near)
    from a have "ordinal_day now = 365 \<or> ordinal_day now = 1" by simp
    with n have "dayOfYear z now \<le> 7 \<or> 358 \<le> dayOfYear z now" by auto
    then show "take 21 (choosePrompt z now st r) = ''Year-end reflection: ''" by (rule yearly)
  qed
  note t = choosePrompt_yearly[OF assms, of z now st] choosePrompt_monthly[OF assms, of z now st]
    choosePrompt_weekend[OF assms, of z now st] choosePrompt_daily[OF assms, of z now st]
  have c8: "valid_date now \<and> \<not> (0 \<le> year now \<and> year now \<le> 99)
          \<and> z now = z (newDate_y00 (year now)) \<longrightarrow>
        (ordinal_day now \<le> 7 \<or> 358 \<le> ordinal_day now \<longrightarrow>
           (\<exists>p\<in>set PROMPTS_yearly. choosePrompt z now st r = ''Year-end reflection: '' @ p))
        \<and> (\<not> (ordinal_day now \<le> 7 \<or> 358 \<le> ordinal_day now) \<and> (day now \<le> 3 \<or> 28 \<le> day now) \<longrightarrow>
           (\<exists>p\<in>set PROMPTS_monthly. choosePrompt z now st r = ''Monthly reflection: '' @ p))
        \<and> (\<not> (ordinal_day now \<le> 7 \<or> 358 \<le> ordinal_day now) \<and> \<not> (day now \<le> 3 \<or> 28 \<le> day now)
             \<and> (getDay now = 5 \<or> getDay now = 6 \<or> getDay now = 0) \<longrightarrow>
           (\<exists>p\<in>set PROMPTS_weekend. choosePrompt z now st r = ''Week reflection: '' @ p))
        \<and> (\<not> (ordinal_day now \<le> 7 \<or> 358 \<le> ordinal_day now) \<and> \<not> (day now \<le> 3 \<or> 28 \<le> day now)
             \<and> \<not> (getDay now = 5 \<or> getDay now = 6 \<or> getDay now = 0) \<longrightarrow>
           (\<exists>p\<in>set (PROMPTS_daily (getRecentSentiment st)).
              choosePrompt z now st r = ''Daily prompt: '' @ p))"
  proof
    assume "valid_date now \<and> \<not> (0 \<le> year now \<and> year now \<le> 99)
          \<and> z now = z (newDate_y00 (year now))"
    then have e: "dayOfYear z now = ordinal_day now" by (simp add: dayOfYear_ordinal)
    show "(ordinal_day now \<le> 7 \<or> 358 \<le> ordinal_day now \<longrightarrow>
           (\<exists>p\<in>set PROMPTS_yearly. choosePrompt z now st r = ''Year-end reflection: '' @ p))
        \<and> (\<not> (ordinal_day now \<le> 7 \<or> 358 \<le> ordinal_day now) \<and> (day now \<le> 3 \<or> 28 \<le> day now) \<longrightarrow>
           (\<exists>p\<in>set PROMPTS_monthly. choosePrompt z now st r = ''Monthly reflection: '' @ p))
        \<and> (\<not> (ordinal_day now \<le> 7 \<or> 358 \<le> ordinal_day now) \<and> \<not> (day now \<le> 3 \<or> 28 \<le> day now)
             \<and> (getDay now = 5 \<or> getDay now = 6 \<or> getDay now = 0) \<longrightarrow>
           (\<exists>p\<in>set PROMPTS_weekend. choosePrompt z now st r = ''Week reflection: '' @ p))
        \<and> (\<not> (ordinal_day now \<le> 7 \<or> 358 \<le> ordinal_day now) \<and> \<not> (day now \<le> 3 \<or> 28 \<le> day now)
             \<and> \<not> (getDay now = 5 \<or> getDay now = 6 \<or> getDay now = 0) \<longrightarrow>
           (\<exists>p\<in>set (PROMPTS_daily (getRecentSentiment st)).
              choosePrompt z now st r = ''Daily prompt: '' @ p))"
      using t unfolding isWeekend_days e by (intro conjI impI) blast+
  qed
  have c17: "(dayOfYear z now \<le> 7 \<or> 358 \<le> dayOfYear z now \<longrightarrow>
        (\<exists>p\<in>set PROMPTS_yearly. choosePrompt z now st r = ''Year-end reflection: '' @ p))
     \<and> (\<not> (dayOfYear z now \<le> 7 \<or> 358 \<le> dayOfYear z now) \<and> (day now \<le> 3 \<or> 28 \<le> day now) \<longrightarrow>
        (\<exists>p\<in>set PROMPTS_monthly. choosePrompt z now st r = ''Monthly reflection: '' @ p))
     \<and> (\<not> (dayOfYear z now \<le> 7 \<or> 358 \<le> dayOfYear z now) \<and> \<not> (day now \<le> 3 \<or> 28 \<le> day now)
          \<and> (getDay now = 5 \<or> getDay now = 6 \<or> getDay now = 0) \<longrightarrow>
        (\<exists>p\<in>set PROMPTS_weekend. choosePrompt z now st r = ''Week reflection: '' @ p))
     \<and> (\<not> (dayOfYear z now \<le> 7 \<or> 358 \<le> dayOfYear z now) \<and> \<not> (day now \<le> 3 \<or> 28 \<le> day now)
          \<and> \<not> (getDay now = 5 \<or> getDay now = 6 \<or> getDay now = 0) \<longrightarrow>
        (\<exists>p\<in>set (PROMPTS_daily (getRecentSentiment st)).
           choosePrompt z now st r = ''Daily prompt: '' @ p))
     \<and> (dayOfYear z now = 365 \<or> dayOfYear z now = 1 \<longrightarrow>
        take 21 (choosePrompt z now st r) = ''Year-end reflection: '')
     \<and> (valid_date now \<and> \<not> (0 \<le> year now \<and> year now \<le> 99)
          \<and> z now = z (newDate_y00 (year now)) \<longrightarrow>
        dayOfYear z now = ordinal_day now)
     \<and> (valid_date now \<and> \<not> (0 \<le> year now \<and> year now \<le> 99)
          \<and> \<bar>z now - z (newDate_y00 (year now))\<bar> \<le> 86400000
          \<and> (ordinal_day now = 365 \<or> ordinal_day now = 1) \<longrightarrow>
        take 21 (choosePrompt z now st r) = ''Year-end reflection: '')"
    using t dayOfYear_ordinal[of now z] c5 c7
    unfolding isWeekend_days by (intro conjI impI) blast+
  from c17 c8 show ?thesis by (elim conjE) (intro conjI; assumption)
qed

text \<open>
  C2. The yearly tier should be selected on the days 1 to 7 and from day 358 of the year,
  and on the other days the monthly, the weekend or the daily tier. Almaty moved from
  UTC+6 to UTC+5 on 2024-03-01. At 23:30 on Sunday 2024-12-22, which is day 22 of its
  month and calendar day 357 of its year, 357 days and 24 hours and a half have passed
  since local midnight of 2023-12-31: \<open>choosePrompt\<close> computes the day 358 and returns a
  yearly prompt, where day 357 of the year, day 22 of the month and a Sunday select the
  weekend tier, with the prefix "Week reflection: ".
\<close>

theorem choosePrompt_almaty_2024:
  "valid_date \<lparr>year = 2024, month = 12, day = 22, ms = 84600000\<rparr>
   \<and> ordinal_day \<lparr>year = 2024, month = 12, day = 22, ms = 84600000\<rparr> = 357
   \<and> day \<lparr>year = 2024, month = 12, day = 22, ms = 84600000\<rparr> = 22
   \<and> getDay \<lparr>year = 2024, month = 12, day = 22, ms = 84600000\<rparr> = 0
   \<and> dayOfYear almaty_2024 \<lparr>year = 2024, month = 12, day = 22, ms = 84600000\<rparr> = 358
   \<and> choosePrompt almaty_2024 \<lparr>year = 2024, month = 12, day = 22, ms = 84600000\<rparr>
         (initial_state ''2024-12-22'') 0
       = ''Year-end reflection: What's the biggest emotional shift you notice over this year?''
   \<and> take 17 (choosePrompt almaty_2024 \<lparr>year = 2024, month = 12, day = 22, ms = 84600000\<rparr>
         (initial_state ''2024-12-22'') 0) \<noteq> ''Week reflection: ''"
  by code_simp

theorem choosePrompt_tiers_witness:
  "(0::real) \<le> 0 \<and> (0::real) < 1
   \<and> dayOfYear utc \<lparr>year = 2025, month = 12, day = 31, ms = 5\<rparr> = 365
   \<and> ordinal_day \<lparr>year = 2025, month = 12, day = 31, ms = 5\<rparr> = 365
   \<and> take 21 (choosePrompt utc \<lparr>year = 2025, month = 12, day = 31, ms = 5\<rparr> (initial_state ''2025-12-31'') 0)
       = ''Year-end reflection: ''
   \<and> dayOfYear utc \<lparr>year = 2025, month = 3, day = 2, ms = 5\<rparr> = 61
   \<and> (\<exists>p\<in>set PROMPTS_monthly.
         choosePrompt utc \<lparr>year = 2025, month = 3, day = 2, ms = 5\<rparr> (initial_state ''2025-03-02'') 0
           = ''Monthly reflection: '' @ p)
   \<and> dayOfYear utc \<lparr>year = 2025, month = 3, day = 14, ms = 5\<rparr> = 73
   \<and> getDay \<lparr>year = 2025, month = 3, day = 14, ms = 5\<rparr> = 5
   \<and> (\<exists>p\<in>set PROMPTS_weekend.
         choosePrompt utc \<lparr>year = 2025, month = 3, day = 14, ms = 5\<rparr> (initial_state ''2025-03-14'') 0
           = ''Week reflection: '' @ p)
   \<and> dayOfYear utc \<lparr>year = 2025, month = 3, day = 12, ms = 5\<rparr> = 71
   \<and> getDay \<lparr>year = 2025, month = 3, day = 12, ms = 5\<rparr> = 3
   \<and> (\<exists>p\<in>set (PROMPTS_daily (getRecentSentiment (initial_state ''2025-03-12''))).
         choosePrompt utc \<lparr>year = 2025, month = 3, day = 12, ms = 5\<rparr> (initial_state ''2025-03-12'') 0
           = ''Daily prompt: '' @ p)"
proof -
  have r: "(0::real) \<le> 0" "(0::real) < 1" by simp_all
  have y: "dayOfYear utc \<lparr>year = 2025, month = 12, day = 31, ms = 5\<rparr> = 365" by code_simp
  have yo: "ordinal_day \<lparr>year = 2025, month = 12, day = 31, ms = 5\<rparr> = 365" by code_simp
  have m: "dayOfYear utc \<lparr>year = 2025, month = 3, day = 2, ms = 5\<rparr> = 61" by code_simp
  have w: "dayOfYear utc \<lparr>year = 2025, month = 3, day = 14, ms = 5\<rparr> = 73"
    "getDay \<lparr>year = 2025, month = 3, day = 14, ms = 5\<rparr> = 5" by code_simp+
  have d: "dayOfYear utc \<lparr>year = 2025, month = 3, day = 12, ms = 5\<rparr> = 71"
    "getDay \<lparr>year = 2025, month = 3, day = 12, ms = 5\<rparr> = 3" by code_simp+
  note t = choosePrompt_tiers[OF r]
  have 1: "take 21 (choosePrompt utc \<lparr>year = 2025, month = 12, day = 31, ms = 5\<rparr> (initial_state ''2025-12-31'') 0)
       = ''Year-end reflection: ''"
    using t[of utc "\<lparr>year = 2025, month = 12, day = 31, ms = 5\<rparr>" "initial_state ''2025-12-31''",
        THEN conjunct2, THEN conjunct2, THEN conjunct2, THEN conjunct2, THEN conjunct1] y
    by blast
  have 2: "\<exists>p\<in>set PROMPTS_monthly.
         choosePrompt utc \<lparr>year = 2025, month = 3, day = 2, ms = 5\<rparr> (initial_state ''2025-03-02'') 0
           = ''Monthly reflection: '' @ p"
    using t[of utc "\<lparr>year = 2025, month = 3, day = 2, ms = 5\<rparr>" "initial_state ''2025-03-02''",
        THEN conjunct2, THEN conjunct1] m
    by simp
  have 3: "\<exists>p\<in>set PROMPTS_weekend.
         choosePrompt utc \<lparr>year = 2025, month = 3, day = 14, ms = 5\<rparr> (initial_state ''2025-03-14'') 0
           = ''Week reflection: '' @ p"
    using t[of utc "\<lparr>year = 2025, month = 3, day = 14, ms = 5\<rparr>" "initial_state ''2025-03-14''",
        THEN conjunct2, THEN conjunct2, THEN conjunct1] w
    by simp
  have 4: "\<exists>p\<in>set (PROMPTS_daily (getRecentSentiment (initial_state ''2025-03-12''))).
         choosePrompt utc \<lparr>year = 2025, month = 3, day = 12, ms = 5\<rparr> (initial_state ''2025-03-12'') 0
           = ''Daily prompt: '' @ p"
    using t[of utc "\<lparr>year = 2025, month = 3, day = 12, ms = 5\<rparr>" "initial_state ''2025-03-12''",
        THEN conjunct2, THEN conjunct2, THEN conjunct2, THEN conjunct1] d
    by simp
  from r y yo m w d 1 2 3 4 show ?thesis by (intro conjI)
qed

text \<open>
  C3. The sentiment of the daily tier is taken from the first three notes of the loaded
  list (the most recent ones, in the order the server sends them): with the largest of the
  three counts as maximum, it is positive if the count of positive notes is the maximum,
  else negative if the count of negative notes is the maximum, else neutral; so a
  sentiment that occurs more often than each of the other two is chosen. With no notes it
  is neutral. \<open>choosePrompt\<close> always returns a text: for every value of \<open>Math.random()\<close>,
  which is at least 0 and less than 1, one of the four prefixes followed by a prompt of
  one of the pools, and in the daily tier a prompt of the pool of that sentiment.
\<close>

theorem getRecentSentiment_majority:
  "getRecentSentiment st =
     (if note_list st = [] then Neutral
      else if count_sentiment Positive (take 3 (note_list st))
                = max (max (count_sentiment Positive (take 3 (note_list st)))
                           (count_sentiment Neutral (take 3 (note_list st))))
                      (count_sentiment Negative (take 3 (note_list st)))
           then Positive
      else if count_sentiment Negative (take 3 (note_list st))
                = max (max (count_sentiment Positive (take 3 (note_list st)))
                           (count_sentiment Neutral (take 3 (note_list st))))
                      (count_sentiment Negative (take 3 (note_list st)))
           then Negative
      else Neutral)
   \<and> ((\<forall>s'. s' \<noteq> s \<longrightarrow> count_sentiment s' (take 3 (note_list st)) < count_sentiment s (take 3 (note_list st)))
        \<longrightarrow> getRecentSentiment st = s)
   \<and> (note_list st = [] \<longrightarrow> getRecentSentiment st = Neutral)
   \<and> (0 \<le> r \<and> r < 1 \<longrightarrow>
        (\<exists>pool\<in>{PROMPTS_yearly, PROMPTS_monthly, PROMPTS_weekend, PROMPTS_daily (getRecentSentiment st)}.
         \<exists>p\<in>set pool.
         \<exists>prefix\<in>{''Year-end reflection: '', ''Monthly reflection: '', ''Week reflection: '', ''Daily prompt: ''}.
           choosePrompt z now st r = prefix @ p))
   \<and> (0 \<le> r \<and> r < 1 \<and> \<not> (dayOfYear z now \<le> 7 \<or> 358 \<le> dayOfYear z now)
        \<and> \<not> (day now \<le> 3 \<or> 28 \<le> day now) \<and> \<not> isWeekend now \<longrightarrow>
        (\<exists>p\<in>set (PROMPTS_daily (getRecentSentiment st)). choosePrompt z now st r = ''Daily prompt: '' @ p))"
proof -
  define P where "P = count_sentiment Positive (take 3 (note_list st))"
  define U where "U = count_sentiment Neutral (take 3 (note_list st))"
  define G where "G = count_sentiment Negative (take 3 (note_list st))"
  have c: "getRecentSentiment st =
     (if note_list st = [] then Neutral
      else if P = max (max P U) G then Positive
      else if G = max (max P U) G then Negative
      else Neutral)"
    unfolding P_def U_def G_def by (rule getRecentSentiment_counts)
  have e: "P = 0 \<and> U = 0 \<and> G = 0" if "note_list st = []"
    using that by (simp add: P_def U_def G_def count_sentiment_def)
  have maj: "getRecentSentiment st = s"
    if h: "\<forall>s'. s' \<noteq> s \<longrightarrow> count_sentiment s' (take 3 (note_list st)) < count_sentiment s (take 3 (note_list st))"
  proof -
    have ne: "note_list st \<noteq> []"
    proof
      assume "note_list st = []"
      then have z: "P = 0 \<and> U = 0 \<and> G = 0" by (rule e)
      obtain s' where "s' \<noteq> s" by (cases s) auto
      with h have "count_sentiment s' (take 3 (note_list st)) < count_sentiment s (take 3 (note_list st))"
        by simp
      moreover have "count_sentiment s (take 3 (note_list st)) = 0"
        using z by (cases s) (simp_all add: P_def U_def G_def)
      ultimately show False by simp
    qed
    show ?thesis
    proof (cases s)
      case Positive
      with h have "U < P" "G < P" by (simp_all add: P_def U_def G_def)
      then have mx: "max (max P U) G = P" by simp
      show ?thesis unfolding c mx using ne Positive by simp
    next
      case Neutral
      with h have l: "P < U" "G < U" by (simp_all add: P_def U_def G_def)
      then have mx: "max (max P U) G = U" by simp
      from l have "P \<noteq> U" "G \<noteq> U" by simp_all
      then show ?thesis unfolding c mx using ne Neutral by simp
    next
      case Negative
      with h have l: "P < G" "U < G" by (simp_all add: P_def U_def G_def)
      then have mx: "max (max P U) G = G" by simp
      from l have "P \<noteq> G" by simp
      then show ?thesis unfolding c mx using ne Negative by simp
    qed
  qed
  have total: "0 \<le> r \<and> r < 1 \<longrightarrow>
        (\<exists>pool\<in>{PROMPTS_yearly, PROMPTS_monthly, PROMPTS_weekend, PROMPTS_daily (getRecentSentiment st)}.
         \<exists>p\<in>set pool.
         \<exists>prefix\<in>{''Year-end reflection: '', ''Monthly reflection: '', ''Week reflection: '', ''Daily prompt: ''}.
           choosePrompt z now st r = prefix @ p)"
  proof
    assume "0 \<le> r \<and> r < 1"
    then have r: "0 \<le> r" "r < 1" by simp_all
    consider (y) "dayOfYear z now \<le> 7 \<or> 358 \<le> dayOfYear z now"
      | (m) "\<not> (dayOfYear z now \<le> 7 \<or> 358 \<le> dayOfYear z now)" "day now \<le> 3 \<or> 28 \<le> day now"
      | (w) "\<not> (dayOfYear z now \<le> 7 \<or> 358 \<le> dayOfYear z now)" "\<not> (day now \<le> 3 \<or> 28 \<le> day now)"
            "isWeekend now"
      | (d) "\<not> (dayOfYear z now \<le> 7 \<or> 358 \<le> dayOfYear z now)" "\<not> (day now \<le> 3 \<or> 28 \<le> day now)"
            "\<not> isWeekend now"
      by blast
    then show "\<exists>pool\<in>{PROMPTS_yearly, PROMPTS_monthly, PROMPTS_weekend, PROMPTS_daily (getRecentSentiment st)}.
         \<exists>p\<in>set pool.
         \<exists>prefix\<in>{''Year-end reflection: '', ''Monthly reflection: '', ''Week reflection: '', ''Daily prompt: ''}.
           choosePrompt z now st r = prefix @ p"
    proof cases
      case y
      from choosePrompt_yearly[OF r y, of st]
      obtain p where p: "p \<in> set PROMPTS_yearly" "choosePrompt z now st r = ''Year-end reflection: '' @ p"
        by (rule bexE)
      show ?thesis
        by (rule bexI[where x = PROMPTS_yearly], rule bexI[OF _ p(1)],
            rule bexI[where x = "''Year-end reflection: ''"], rule p(2)) (simp_all only: insertI1 insertI2)
    next
      case m
      from choosePrompt_monthly[OF r m, of st]
      obtain p where p: "p \<in> set PROMPTS_monthly" "choosePrompt z now st r = ''Monthly reflection: '' @ p"
        by (rule bexE)
      show ?thesis
        by (rule bexI[where x = PROMPTS_monthly], rule bexI[OF _ p(1)],
            rule bexI[where x = "''Monthly reflection: ''"], rule p(2)) (simp_all only: insertI1 insertI2)
    next
      case w
      from choosePrompt_weekend[OF r w, of st]
      obtain p where p: "p \<in> set PROMPTS_weekend" "choosePrompt z now st r = ''Week reflection: '' @ p"
        by (rule bexE)
      show ?thesis
        by (rule bexI[where x = PROMPTS_weekend], rule bexI[OF _ p(1)],
            rule bexI[where x = "''Week reflection: ''"], rule p(2)) (simp_all only: insertI1 insertI2)
    next
      case d
      from choosePrompt_daily[OF r d, of st]
      obtain p where p: "p \<in> set (PROMPTS_daily (getRecentSentiment st))"
        "choosePrompt z now st r = ''Daily prompt: '' @ p"
        by (rule bexE)
      show ?thesis
        by (rule bexI[where x = "PROMPTS_daily (getRecentSentiment st)"], rule bexI[OF _ p(1)],
            rule bexI[where x = "''Daily prompt: ''"], rule p(2)) (simp_all only: insertI1 insertI2)
    qed
  qed
  have empty: "note_list st = [] \<longrightarrow> getRecentSentiment st = Neutral"
    using c by simp
  have majI: "(\<forall>s'. s' \<noteq> s \<longrightarrow> count_sentiment s' (take 3 (note_list st)) < count_sentiment s (take 3 (note_list st)))
        \<longrightarrow> getRecentSentiment st = s"
    using maj by (rule impI)
  have daily: "0 \<le> r \<and> r < 1 \<and> \<not> (dayOfYear z now \<le> 7 \<or> 358 \<le> dayOfYear z now)
        \<and> \<not> (day now \<le> 3 \<or> 28 \<le> day now) \<and> \<not> isWeekend now \<longrightarrow>
        (\<exists>p\<in>set (PROMPTS_daily (getRecentSentiment st)). choosePrompt z now st r = ''Daily prompt: '' @ p)"
  proof
    assume a: "0 \<le> r \<and> r < 1 \<and> \<not> (dayOfYear z now \<le> 7 \<or> 358 \<le> dayOfYear z now)
        \<and> \<not> (day now \<le> 3 \<or> 28 \<le> day now) \<and> \<not> isWeekend now"
    then have r: "0 \<le> r" "r < 1"
      and n: "\<not> (dayOfYear z now \<le> 7 \<or> 358 \<le> dayOfYear z now)"
        "\<not> (day now \<le> 3 \<or> 28 \<le> day now)" "\<not> isWeekend now"
      by blast+
    show "\<exists>p\<in>set (PROMPTS_daily (getRecentSentiment st)). choosePrompt z now st r = ''Daily prompt: '' @ p"
      by (rule choosePrompt_daily[OF r n])
  qed
  from getRecentSentiment_counts[of st] majI empty total daily show ?thesis by (intro conjI)
qed

theorem getRecentSentiment_majority_witness:
  "count_sentiment Positive (take 3 (note_list ((initial_state ''2025-03-12'')
       \<lparr>note_list := [example_note Negative [] [], example_note Negative [] [],
                      example_note Positive [] [], example_note Positive [] []]\<rparr>))) = 1
   \<and> count_sentiment Negative (take 3 (note_list ((initial_state ''2025-03-12'')
       \<lparr>note_list := [example_note Negative [] [], example_note Negative [] [],
                      example_note Positive [] [], example_note Positive [] []]\<rparr>))) = 2
   \<and> getRecentSentiment ((initial_state ''2025-03-12'')
       \<lparr>note_list := [example_note Negative [] [], example_note Negative [] [],
                      example_note Positive [] [], example_note Positive [] []]\<rparr>) = Negative
   \<and> getRecentSentiment (initial_state ''2025-03-12'') = Neutral
   \<and> (0::real) \<le> 0 \<and> (0::real) < 1
   \<and> (\<exists>p\<in>set (PROMPTS_daily (getRecentSentiment (initial_state ''2025-03-12''))).
         choosePrompt utc \<lparr>year = 2025, month = 3, day = 12, ms = 5\<rparr> (initial_state ''2025-03-12'') 0
           = ''Daily prompt: '' @ p)"
proof -
  let ?st = "(initial_state ''2025-03-12'')
       \<lparr>note_list := [example_note Negative [] [], example_note Negative [] [],
                      example_note Positive [] [], example_note Positive [] []]\<rparr>"
  let ?now = "\<lparr>year = 2025, month = 3, day = 12, ms = 5\<rparr>"
  have c: "count_sentiment Positive (take 3 (note_list ?st)) = 1"
    "count_sentiment Neutral (take 3 (note_list ?st)) = 0"
    "count_sentiment Negative (take 3 (note_list ?st)) = 2"
    by (simp_all add: count_sentiment_def example_note_def)
  have h: "\<forall>s'. s' \<noteq> Negative \<longrightarrow>
      count_sentiment s' (take 3 (note_list ?st)) < count_sentiment Negative (take 3 (note_list ?st))"
  proof (intro allI impI)
    fix s' :: sentiment
    assume "s' \<noteq> Negative"
    then show "count_sentiment s' (take 3 (note_list ?st)) < count_sentiment Negative (take 3 (note_list ?st))"
      using c by (cases s') simp_all
  qed
  note t = getRecentSentiment_majority
  have 1: "getRecentSentiment ?st = Negative"
    using t[of ?st Negative, THEN conjunct2, THEN conjunct1] h by (rule mp)
  have e: "note_list (initial_state ''2025-03-12'') = []" by (simp add: initial_state_def)
  have 2: "getRecentSentiment (initial_state ''2025-03-12'') = Neutral"
    using t[of "initial_state ''2025-03-12''", THEN conjunct2, THEN conjunct2, THEN conjunct1] e
    by (rule mp)
  have r: "(0::real) \<le> 0" "(0::real) < 1" by simp_all
  have d: "dayOfYear utc ?now = 71" "getDay ?now = 3" by code_simp+
  have a: "0 \<le> (0::real) \<and> (0::real) < 1 \<and> \<not> (dayOfYear utc ?now \<le> 7 \<or> 358 \<le> dayOfYear utc ?now)
        \<and> \<not> (day ?now \<le> 3 \<or> 28 \<le> day ?now) \<and> \<not> isWeekend ?now"
    using d by (simp add: isWeekend_def)
  have 3: "\<exists>p\<in>set (PROMPTS_daily (getRecentSentiment (initial_state ''2025-03-12''))).
         choosePrompt utc ?now (initial_state ''2025-03-12'') 0 = ''Daily prompt: '' @ p"
    using t[of "initial_state ''2025-03-12''" _ 0 utc ?now,
        THEN conjunct2, THEN conjunct2, THEN conjunct2, THEN conjunct2] a
    by (rule mp)
  from c(1) c(3) 1 2 r 3 show ?thesis by (intro conjI)
qed

subsection \<open>The analysis request\<close>

text \<open>
  C8. For every text, if the analysis request fails, with a network failure or with a
  status that is not from 200 to 299, \<open>analyzeText\<close> returns the default analysis
  (neutral, intensity 2, no emotions, no themes) and throws nothing; a save of a
  non-empty text then posts an entry whose analysis is this default, with the sentiment
  neutral, whatever becomes of the save request, of the reload and of the rendering.
\<close>

theorem analyzeText_default_on_failure:
  assumes "(\<exists>e. f = Rejected e) \<or> (\<exists>res. f = Fulfilled res \<and> \<not> ok res)"
  shows "analyzeText txt f = \<lparr>sentiment = Neutral, intensity = 2, emotions = [], themes = []\<rparr>
     \<and> (textToSave \<noteq> [] \<longrightarrow>
          posted (save_entry st textToSave created f fs fl rendered)
            = [\<lparr>payload_text = textToSave, payload_createdAt = created,
                payload_analysis = \<lparr>sentiment = Neutral, intensity = 2, emotions = [], themes = []\<rparr>\<rparr>])"
proof -
  have a: "analyzeText t f = default_analysis" for t
    using assms
    by (auto simp: analyzeText_def analyzeText_try_def split: settled.splits)
  have p: "posted (save_entry st textToSave created f fs fl rendered)
      = [\<lparr>payload_text = textToSave, payload_createdAt = created,
          payload_analysis = analyzeText textToSave f\<rparr>]" if "textToSave \<noteq> []"
    using that
    by (simp add: save_entry_def save_failed_def Let_def split: settled.splits option.splits)
  show ?thesis using a p by (simp add: default_analysis_def)
qed

theorem analyzeText_default_on_failure_witness:
  "analyzeText ''A walk at noon.'' (Rejected ''Failed to fetch'')
     = \<lparr>sentiment = Neutral, intensity = 2, emotions = [], themes = []\<rparr>
   \<and> \<not> ok (\<lparr>status = 500, statusText = ''Internal Server Error'',
            text_body = Fulfilled ''model not loaded'', json_body = Rejected ''Unexpected token''\<rparr>
            :: Analysis response)
   \<and> analyzeText ''A walk at noon.''
        (Fulfilled \<lparr>status = 500, statusText = ''Internal Server Error'',
            text_body = Fulfilled ''model not loaded'', json_body = Rejected ''Unexpected token''\<rparr>)
     = \<lparr>sentiment = Neutral, intensity = 2, emotions = [], themes = []\<rparr>
   \<and> map (\<lambda>p. sentiment (payload_analysis p))
        (posted (save_entry (initial_state ''2025-03-09'') ''A walk at noon.'' ''2025-03-09''
           (Rejected ''Failed to fetch'')
           (Fulfilled \<lparr>status = 201, statusText = ''Created'', text_body = Fulfilled ''{}'',
              json_body = Fulfilled (example_note Neutral [] [])\<rparr>)
           (Fulfilled \<lparr>status = 200, statusText = ''OK'', text_body = Fulfilled ''[]'',
              json_body = Fulfilled [example_note Neutral [] []]\<rparr>)
           None))
     = [Neutral]"
proof -
  let ?res = "\<lparr>status = 500, statusText = ''Internal Server Error'',
            text_body = Fulfilled ''model not loaded'', json_body = Rejected ''Unexpected token''\<rparr>
            :: Analysis response"
  have n: "\<not> ok ?res" by (simp add: ok_def)
  have h1: "(\<exists>e. (Rejected ''Failed to fetch'' :: Analysis response settled) = Rejected e)
      \<or> (\<exists>res. (Rejected ''Failed to fetch'' :: Analysis response settled) = Fulfilled res \<and> \<not> ok res)"
    by simp
  have h2: "(\<exists>e. Fulfilled ?res = Rejected e) \<or> (\<exists>res. Fulfilled ?res = Fulfilled res \<and> \<not> ok res)"
    using n by simp
  note a = analyzeText_default_on_failure[OF h1] analyzeText_default_on_failure[OF h2]
  have t: "''A walk at noon.'' \<noteq> []" by simp
  from a(1)[THEN conjunct2, THEN mp, OF t] have
    "map (\<lambda>p. sentiment (payload_analysis p))
        (posted (save_entry st ''A walk at noon.'' created (Rejected ''Failed to fetch'') fs fl rendered)) = [Neutral]"
    for st created fs fl rendered by simp
  with a(1)[THEN conjunct1] a(2)[THEN conjunct1] n show ?thesis by (intro conjI)
qed

section \<open>Loading and pagination\<close>

subsection \<open>Loading the entries\<close>

text \<open>
  \<open>loadEntries\<close> of \<open>client/src/main.ts\<close>: every failure (a rejected request, a status
  outside 200 to 299, a body that is no JSON) empties the list and writes one line to the
  console; the promise never rejects, and one request is made.
\<close>

lemma loadEntries_failure:
  assumes "(\<exists>e. f = Rejected e) \<or> (\<exists>res. f = Fulfilled res \<and> (\<not> ok res \<or> (\<exists>e. json_body res = Rejected e)))"
  shows "note_list (after (loadEntries st f)) = []"
    and "length (logged (loadEntries st f)) = 1"
    and "raised (loadEntries st f) = None"
    and "length (requests (loadEntries st f)) = 1"
  using assms
  by (auto simp: loadEntries_def loadEntries_try_def Let_def split: settled.splits)

lemma loadEntries_never_rejects: "raised (loadEntries st f) = None \<and> length (requests (loadEntries st f)) = 1"
  by (simp add: loadEntries_def loadEntries_try_def Let_def split: settled.splits sum.splits prod.splits)

lemma loadEntries_page_reset:
  assumes "f = Fulfilled res" "\<not> ok res \<or> (\<exists>ns. json_body res = Fulfilled ns)"
  shows "page (after (loadEntries st f)) = 1"
  using assms
  by (auto simp: loadEntries_def loadEntries_try_def Let_def split: settled.splits)

lemma loadEntries_v2_page_reset:
  assumes "raised (loadEntries_v2 st f) = None"
  shows "page (after (loadEntries_v2 st f)) = 1"
  using assms
  by (auto simp: loadEntries_v2_def Let_def split: settled.splits if_splits)

lemma loadEntries_perPage:
  "perPage (after (loadEntries st f)) = perPage st" "perPage (after (loadEntries_v2 st f)) = perPage st"
  by (auto simp: loadEntries_def loadEntries_try_def loadEntries_v2_def Let_def split: settled.splits)

text \<open>
  C9. A failed entry load should empty the entry list and write a log entry, and show no
  error to the user. The second version of \<open>loadEntries\<close> has no \<open>try\<close> block: when the
  request itself fails, the entries stay as they were, nothing is logged and the promise
  rejects; \<open>refresh\<close> rejects with it, and in the save handler, which awaits \<open>refresh\<close>
  inside its \<open>try\<close> block, the user is shown the alert. The version of
  \<open>client/src/main.ts\<close> catches the failure, empties the list and logs it.
\<close>

theorem loadEntries_v2_request_failure:
  "note_list (after (loadEntries_v2
      ((initial_state ''2025-03-09'')\<lparr>note_list := [example_note Positive [] []]\<rparr>)
      (Rejected ''Failed to fetch''))) = [example_note Positive [] []]
   \<and> logged (loadEntries_v2
      ((initial_state ''2025-03-09'')\<lparr>note_list := [example_note Positive [] []]\<rparr>)
      (Rejected ''Failed to fetch'')) = []
   \<and> raised (loadEntries_v2
      ((initial_state ''2025-03-09'')\<lparr>note_list := [example_note Positive [] []]\<rparr>)
      (Rejected ''Failed to fetch'')) = Some ''Failed to fetch''
   \<and> alerts (save_entry
      ((initial_state ''2025-03-09'')\<lparr>note_list := [example_note Positive [] []]\<rparr>)
      ''A walk at noon.'' ''2025-03-09''
      (Fulfilled \<lparr>status = 200, statusText = ''OK'', text_body = Fulfilled ''{}'',
         json_body = Fulfilled default_analysis\<rparr>)
      (Fulfilled \<lparr>status = 201, statusText = ''Created'', text_body = Fulfilled ''{}'',
         json_body = Fulfilled (example_note Neutral [] [])\<rparr>)
      (Rejected ''Failed to fetch'') None) = [''Could not save entry: Failed to fetch'']
   \<and> note_list (after (loadEntries
      ((initial_state ''2025-03-09'')\<lparr>note_list := [example_note Positive [] []]\<rparr>)
      (Rejected ''Failed to fetch''))) = []
   \<and> logged (loadEntries
      ((initial_state ''2025-03-09'')\<lparr>note_list := [example_note Positive [] []]\<rparr>)
      (Rejected ''Failed to fetch'')) = [Error_loading_entries ''Failed to fetch'']"
  by (simp add: loadEntries_v2_def loadEntries_def loadEntries_try_def save_entry_def save_failed_def
      analyzeText_def analyzeText_try_def ok_def Let_def initial_state_def)

subsection \<open>Pagination\<close>

lemma js_slice_window:
  assumes "0 \<le> s" "0 \<le> w"
  shows "js_slice xs s (s + w) = take (nat w) (drop (nat s) xs)"
proof (cases "s \<le> int (length xs)")
  case True
  then have k: "min s (int (length xs)) = s" by simp
  have "take (nat (min (s + w) (int (length xs)) - s)) (drop (nat s) xs) = take (nat w) (drop (nat s) xs)"
  proof (cases "s + w \<le> int (length xs)")
    case True
    then show ?thesis by simp
  next
    case False
    then have "min (s + w) (int (length xs)) = int (length xs)" by simp
    moreover have "length (drop (nat s) xs) = nat (int (length xs) - s)" using assms(1) by simp
    moreover have "nat (int (length xs) - s) \<le> nat w" using False by simp
    ultimately show ?thesis by simp
  qed
  then show ?thesis using assms by (simp add: js_slice_def Let_def k)
next
  case False
  then have "drop (nat s) xs = []" by simp
  moreover have "min s (int (length xs)) = int (length xs)" "min (s + w) (int (length xs)) = int (length xs)"
    using False assms by simp_all
  ultimately show ?thesis using assms by (simp add: js_slice_def Let_def)
qed

text \<open>
  The rendered page: with the page size 3, page \<open>p\<close> shows the notes from index
  \<open>3 (p - 1)\<close> up to, not including, index \<open>3 p\<close>.
\<close>

lemma renderEntries_page:
  assumes "perPage st = 3" "1 \<le> page st"
  shows "cards (renderEntries st) = take 3 (drop (3 * nat (page st - 1)) (note_list st))"
proof (cases "note_list st = []")
  case True
  then show ?thesis by (simp add: renderEntries_def)
next
  case False
  have s: "0 \<le> (page st - 1) * 3" using assms(2) by simp
  have n: "nat (page st * 3 - 3) = 3 * nat (page st - 1)" using assms(2) by arith
  have "js_slice (note_list st) ((page st - 1) * 3) ((page st - 1) * 3 + 3)
      = take (nat 3) (drop (nat ((page st - 1) * 3)) (note_list st))"
    using s by (rule js_slice_window) simp
  then show ?thesis using False assms(1) by (simp add: renderEntries_def Let_def n)
qed

lemma renderEntries_at_most_3:
  assumes "perPage st = 3" "1 \<le> page st"
  shows "length (cards (renderEntries st)) \<le> 3"
  unfolding renderEntries_page[OF assms] by simp

lemma pages_concat:
  "concat (map (\<lambda>p. take 3 (drop (3 * (p - 1)) xs)) [1..<Suc k]) = take (3 * k) xs"
proof (induction k)
  case 0
  then show ?case by simp
next
  case (Suc k)
  have "concat (map (\<lambda>p. take 3 (drop (3 * (p - 1)) xs)) [1..<Suc (Suc k)])
      = concat (map (\<lambda>p. take 3 (drop (3 * (p - 1)) xs)) [1..<Suc k]) @ take 3 (drop (3 * k) xs)"
    by simp
  also have "\<dots> = take (3 * k) xs @ take 3 (drop (3 * k) xs)" by (simp only: Suc.IH)
  also have "\<dots> = take (3 * k + 3) xs" by (rule take_add[symmetric])
  finally show ?case by (simp add: algebra_simps)
qed

lemma totalPages_covers:
  assumes "perPage st = 3"
  shows "1 \<le> totalPages st" "int (length (note_list st)) \<le> 3 * totalPages st"
proof -
  let ?n = "length (note_list st)"
  show "1 \<le> totalPages st" by (simp add: totalPages_def)
  have "real ?n / 3 \<le> real_of_int \<lceil>real ?n / 3\<rceil>" by (rule le_of_int_ceiling)
  then have "real ?n \<le> 3 * real_of_int \<lceil>real ?n / 3\<rceil>" by linarith
  then have "real_of_int (int ?n) \<le> real_of_int (3 * \<lceil>real ?n / 3\<rceil>)" by simp
  then have "int ?n \<le> 3 * \<lceil>real ?n / 3\<rceil>" by (simp only: of_int_le_iff)
  then show "int ?n \<le> 3 * totalPages st" using assms by (simp add: totalPages_def)
qed

text \<open>The pages 1 to \<open>totalPages\<close>, one after the other, are the whole list.\<close>

lemma renderEntries_pages_cover:
  assumes "perPage st = 3"
  shows "concat (map (\<lambda>p. cards (renderEntries (st\<lparr>page := int p\<rparr>))) [1..<Suc (nat (totalPages st))])
      = note_list st"
proof -
  have "cards (renderEntries (st\<lparr>page := int p\<rparr>)) = take 3 (drop (3 * (p - 1)) (note_list st))"
    if "p \<in> set [1..<Suc (nat (totalPages st))]" for p
  proof -
    from that have "1 \<le> p \<and> p < Suc (nat (totalPages st))"
      by (simp only: set_upt atLeastLessThan_iff)
    then have "1 \<le> p" by (rule conjunct1)
    then have "nat (int p - 1) = p - 1" by simp
    with renderEntries_page[of "st\<lparr>page := int p\<rparr>"] assms \<open>1 \<le> p\<close> show ?thesis by simp
  qed
  then have "map (\<lambda>p. cards (renderEntries (st\<lparr>page := int p\<rparr>))) [1..<Suc (nat (totalPages st))]
      = map (\<lambda>p. take 3 (drop (3 * (p - 1)) (note_list st))) [1..<Suc (nat (totalPages st))]"
    by (intro map_cong refl)
  then have "concat (map (\<lambda>p. cards (renderEntries (st\<lparr>page := int p\<rparr>))) [1..<Suc (nat (totalPages st))])
      = take (3 * nat (totalPages st)) (note_list st)"
    by (simp only: pages_concat)
  moreover have "length (note_list st) \<le> 3 * nat (totalPages st)"
    using totalPages_covers[OF assms] by linarith
  ultimately show ?thesis by simp
qed

text \<open>
  C10. The page size is 3 and every rendered page is the slice of the list that the claim
  describes (\<open>renderEntries_page\<close>, \<open>renderEntries_at_most_3\<close>, \<open>renderEntries_pages_cover\<close>).
  \<open>loadEntries\<close> of \<open>client/src/main.ts\<close> sets the page to 1 at the end of its \<open>try\<close>
  block, after a response with any status. Its \<open>catch\<close> block empties the list and leaves
  the page: after a request that failed, or a body that was no JSON, \<open>loadEntries\<close>
  completes with the page it found.
\<close>

theorem loadEntries_catch_keeps_page:
  "page (after (loadEntries
      ((initial_state ''2025-03-09'')
         \<lparr>note_list := [example_note Positive [] [], example_note Neutral [] [],
                        example_note Negative [] [], example_note Neutral [] []],
          page := 2\<rparr>)
      (Rejected ''Failed to fetch''))) = 2
   \<and> note_list (after (loadEntries
      ((initial_state ''2025-03-09'')
         \<lparr>note_list := [example_note Positive [] [], example_note Neutral [] [],
                        example_note Negative [] [], example_note Neutral [] []],
          page := 2\<rparr>)
      (Rejected ''Failed to fetch''))) = []
   \<and> raised (loadEntries
      ((initial_state ''2025-03-09'')
         \<lparr>note_list := [example_note Positive [] [], example_note Neutral [] [],
                        example_note Negative [] [], example_note Neutral [] []],
          page := 2\<rparr>)
      (Rejected ''Failed to fetch'')) = None
   \<and> page (after (loadEntries
      ((initial_state ''2025-03-09'')
         \<lparr>note_list := [example_note Positive [] [], example_note Neutral [] [],
                        example_note Negative [] [], example_note Neutral [] []],
          page := 2\<rparr>)
      (Fulfilled \<lparr>status = 200, statusText = ''OK'', text_body = Fulfilled ''<html>'',
         json_body = Rejected ''Unexpected token''\<rparr>))) = 2
   \<and> page (after (loadEntries
      ((initial_state ''2025-03-09'')
         \<lparr>note_list := [example_note Positive [] [], example_note Neutral [] [],
                        example_note Negative [] [], example_note Neutral [] []],
          page := 2\<rparr>)
      (Fulfilled \<lparr>status = 500, statusText = ''Internal Server Error'', text_body = Fulfilled '''',
         json_body = Rejected ''Unexpected end''\<rparr>))) = 1"
  by (simp add: loadEntries_def loadEntries_try_def ok_def Let_def initial_state_def)

section \<open>The overview aggregator\<close>

lemma map_of_bump_some:
  "map_of (map (\<lambda>(k', c'). if k' = k then (k', c' + 1) else (k', c')) cs) l
     = (if l = k then map_option (\<lambda>c. c + 1) (map_of cs l) else map_of cs l)"
  by (induction cs) auto

lemma keys_bump_some:
  "map fst (map (\<lambda>(k', c'). if k' = k then (k', c' + 1) else (k', c')) cs) = map fst cs"
  by (induction cs) auto

lemma keys_bump:
  "map fst (bump cs k) = (if k \<in> set (map fst cs) then map fst cs else map fst cs @ [k])"
proof (cases "map_of cs k")
  case None
  then have "k \<notin> set (map fst cs)" by (simp add: map_of_eq_None_iff)
  with None show ?thesis by (simp add: bump_def)
next
  case (Some c)
  then have m: "k \<in> set (map fst cs)" by (metis map_of_eq_None_iff option.distinct(1) set_map)
  have "bump cs k = map (\<lambda>(k', c'). if k' = k then (k', c' + 1) else (k', c')) cs"
    using Some by (simp add: bump_def)
  then have "map fst (bump cs k) = map fst cs" by (simp only: keys_bump_some)
  with m show ?thesis by simp
qed

text \<open>The count of a label in a dictionary, 0 for a label that is no key.\<close>

lemma count_after_bump:
  "(case map_of (bump cs k) l of None \<Rightarrow> 0 | Some c \<Rightarrow> c)
     = (case map_of cs l of None \<Rightarrow> 0 | Some c \<Rightarrow> c) + (if l = k then 1 else 0)"
proof (cases "map_of cs k")
  case None
  then show ?thesis by (simp add: bump_def map_add_def split: option.splits)
next
  case (Some c)
  then show ?thesis by (simp add: bump_def map_of_bump_some split: option.splits)
qed

lemma distinct_bump: "distinct (map fst cs) \<Longrightarrow> distinct (map fst (bump cs k))"
  by (simp add: keys_bump)

lemma dictionary_id:
  assumes "distinct (map fst cs)"
  shows "map (\<lambda>l. (l, case map_of cs l of None \<Rightarrow> 0 | Some c \<Rightarrow> c)) (map fst cs) = cs"
proof -
  have "(fst e, case map_of cs (fst e) of None \<Rightarrow> 0 | Some c \<Rightarrow> c) = e" if "e \<in> set cs" for e
  proof -
    obtain k c where e: "e = (k, c)" by (cases e)
    with that assms have "map_of cs k = Some c" by (intro map_of_is_SomeI) simp_all
    with e show ?thesis by simp
  qed
  then have "map (\<lambda>e. (fst e, case map_of cs (fst e) of None \<Rightarrow> 0 | Some c \<Rightarrow> c)) cs = cs"
    by (intro map_idI)
  then show ?thesis by (simp add: o_def)
qed

lemma fold_bump:
  assumes "distinct (map fst cs)"
  shows "fold (\<lambda>k counts. bump counts k) xs cs
     = map (\<lambda>l. (l, (case map_of cs l of None \<Rightarrow> 0 | Some c \<Rightarrow> c) + count_list xs l))
         (fold (\<lambda>l seen. if l \<in> set seen then seen else seen @ [l]) xs (map fst cs))"
  using assms
proof (induction xs arbitrary: cs)
  case Nil
  show ?case
    by (simp only: fold_simps id_apply count_list.simps add_0_right dictionary_id[OF Nil.prems])
next
  case (Cons x xs)
  have d: "distinct (map fst (bump cs x))" using Cons.prems by (rule distinct_bump)
  have k: "(if x \<in> set (map fst cs) then map fst cs else map fst cs @ [x]) = map fst (bump cs x)"
    by (simp only: keys_bump)
  have c: "(case map_of (bump cs x) l of None \<Rightarrow> 0 | Some c \<Rightarrow> c) + count_list xs l
      = (case map_of cs l of None \<Rightarrow> 0 | Some c \<Rightarrow> c) + count_list (x # xs) l" for l
    unfolding count_after_bump by simp
  show ?case
    by (simp only: fold_simps comp_apply k Cons.IH[OF d] c)
qed

lemma countLabels_eq:
  "countLabels labels = map (\<lambda>l. (l, count_list labels l)) (first_seen labels)"
  using fold_bump[of "[]" labels] by (simp add: countLabels_def first_seen_def)

lemma insort_key_map:
  "insort_key f (g x) (map g ys) = map g (insort_key (\<lambda>y. f (g y)) x ys)"
  by (induction ys) simp_all

lemma sort_key_map: "sort_key f (map g xs) = map g (sort_key (\<lambda>x. f (g x)) xs)"
  by (induction xs) (simp_all add: insort_key_map)

lemma Object_entries_map:
  "Object_entries (map (\<lambda>l. (l, c l)) ks) = map (\<lambda>l. (l, c l)) (property_order ks)"
  by (simp add: Object_entries_def property_order_def filter_map o_def sort_key_map)

text \<open>
  What the pipeline computes, for all labels: the first five of the distinct labels, in
  property order, sorted stably by descending frequency.
\<close>

lemma topLabels_eq:
  "topLabels labels
     = take 5 (sort_key (\<lambda>l. - int (count_list labels l)) (property_order (first_seen labels)))"
proof -
  have "js_slice xs 0 5 = take 5 xs" for xs :: "(string \<times> nat) list"
    using js_slice_prefix[of 5 xs] by simp
  then show ?thesis
    by (simp add: topLabels_def countLabels_eq Object_entries_map sort_by_count_def sort_key_map
        take_map o_def)
qed

lemma first_seen_from_set:
  "set (fold (\<lambda>l seen. if l \<in> set seen then seen else seen @ [l]) xs acc) = set acc \<union> set xs"
  by (induction xs arbitrary: acc) auto

lemma first_seen_from_distinct:
  "distinct acc \<Longrightarrow> distinct (fold (\<lambda>l seen. if l \<in> set seen then seen else seen @ [l]) xs acc)"
  by (induction xs arbitrary: acc) auto

lemma first_seen_set: "set (first_seen labels) = set labels"
  by (simp add: first_seen_def first_seen_from_set)

lemma first_seen_distinct: "distinct (first_seen labels)"
  by (simp add: first_seen_def first_seen_from_distinct)

lemma property_order_plain:
  assumes "\<forall>k\<in>set ks. \<not> is_array_index k"
  shows "property_order ks = ks"
proof -
  have "filter is_array_index ks = []" using assms by (simp add: filter_empty_conv)
  moreover have "filter (\<lambda>k. \<not> is_array_index k) ks = ks" using assms by (simp add: filter_id_conv)
  ultimately show ?thesis by (simp add: property_order_def)
qed

lemma topLabels_plain:
  assumes "\<forall>l\<in>set labels. \<not> is_array_index l"
  shows "topLabels labels = spec_top labels"
proof -
  have "\<forall>k\<in>set (first_seen labels). \<not> is_array_index k" using assms by (simp add: first_seen_set)
  then show ?thesis by (simp add: topLabels_eq spec_top_def property_order_plain)
qed

text \<open>
  \<open>renderOverview\<close> of \<open>client/src/main.ts\<close> returns at once when there are no notes, and
  the two containers keep what they showed before.
\<close>

lemma renderOverview_empty: "note_list st = [] \<Longrightarrow> renderOverview st page_dom = page_dom"
  by (simp add: renderOverview_def)

lemma renderOverview_present:
  assumes "note_list st \<noteq> []" "emotionsWrap page_dom \<noteq> None" "themesWrap page_dom \<noteq> None"
  shows "renderOverview st page_dom
      = \<lparr>emotionsWrap = Some (show_top (topLabels (allEmotions (note_list st))) ''No emotions detected''),
         themesWrap = Some (show_top (topLabels (allThemes (note_list st))) ''No themes detected'')\<rparr>"
    and "renderOverview_v2 st page_dom = \<lparr>shown = renderOverview st page_dom, thrown = False\<rparr>"
  using assms by (auto simp: renderOverview_def renderOverview_v2_def put_def Let_def)

lemma renderOverview_v2_empty:
  assumes "note_list st = []" "emotionsWrap page_dom \<noteq> None" "themesWrap page_dom \<noteq> None"
  shows "renderOverview_v2 st page_dom
      = \<lparr>shown = \<lparr>emotionsWrap = Some (Placeholder ''No emotions detected''),
                   themesWrap = Some (Placeholder ''No themes detected'')\<rparr>,
         thrown = False\<rparr>"
  using assms by (auto simp: renderOverview_v2_def put_def)

text \<open>
  The themes work and 2025, once each, are shown as 2025, work, though work appeared
  first: a label that is an array index comes first in the property order of the
  dictionary, and the sort keeps that order among labels of equal count.
\<close>

theorem topLabels_index_first:
  "own_labels [''work'', ''2025'']
   \<and> topLabels [''work'', ''2025''] = [''2025'', ''work'']
   \<and> spec_top [''work'', ''2025''] = [''work'', ''2025'']
   \<and> themesWrap (renderOverview
        ((initial_state ''2025-03-09'')\<lparr>note_list := [example_note Neutral [] [''work'', ''2025'']]\<rparr>)
        \<lparr>emotionsWrap = Some (Placeholder []), themesWrap = Some (Placeholder [])\<rparr>)
       = Some (Badges [''2025'', ''work''])
   \<and> themesWrap (shown (renderOverview_v2
        ((initial_state ''2025-03-09'')\<lparr>note_list := [example_note Neutral [] [''work'', ''2025'']]\<rparr>)
        \<lparr>emotionsWrap = Some (Placeholder []), themesWrap = Some (Placeholder [])\<rparr>))
       = Some (Badges [''2025'', ''work''])"
  by code_simp

text \<open>
  C4. In a page that has the two containers of the overview, and for labels that are no
  names of \<open>Object.prototype\<close>: for a list of entries that is not empty, both versions of
  \<open>renderOverview\<close> flatten the emotion labels and the theme labels of all entries, count
  how often each label occurs, and show at most five labels each: the distinct labels,
  taken in property order (labels that are array indices first, in ascending numeric
  order, then all other labels in the order of their first appearance), are sorted stably
  by descending count, and the first five are shown; a container with no label shows its
  placeholder. Where no label is an array index, labels of equal count are in the order of
  their first appearance, which is the aggregate of the specification. For an empty list
  the second version shows the placeholder in both containers.
\<close>

theorem renderOverview_top_five:
  "(own_labels labels \<longrightarrow>
        topLabels labels
          = take 5 (sort_key (\<lambda>l. - int (count_list labels l)) (property_order (first_seen labels)))
        \<and> length (topLabels labels) \<le> 5
        \<and> ((\<forall>l\<in>set labels. \<not> is_array_index l) \<longrightarrow> topLabels labels = spec_top labels))
   \<and> distinct (first_seen labels) \<and> set (first_seen labels) = set labels
   \<and> (note_list st \<noteq> [] \<and> emotionsWrap page_dom \<noteq> None \<and> themesWrap page_dom \<noteq> None
        \<and> own_labels (allEmotions (note_list st)) \<and> own_labels (allThemes (note_list st)) \<longrightarrow>
        renderOverview st page_dom
          = \<lparr>emotionsWrap = Some (show_top (topLabels (allEmotions (note_list st))) ''No emotions detected''),
             themesWrap = Some (show_top (topLabels (allThemes (note_list st))) ''No themes detected'')\<rparr>
        \<and> renderOverview_v2 st page_dom = \<lparr>shown = renderOverview st page_dom, thrown = False\<rparr>)
   \<and> (note_list st \<noteq> [] \<and> emotionsWrap page_dom \<noteq> None \<and> themesWrap page_dom \<noteq> None
        \<and> own_labels (allEmotions (note_list st)) \<and> own_labels (allThemes (note_list st))
        \<and> (\<forall>l\<in>set (allEmotions (note_list st)) \<union> set (allThemes (note_list st)). \<not> is_array_index l) \<longrightarrow>
        renderOverview st page_dom
          = \<lparr>emotionsWrap = Some (show_top (spec_top (allEmotions (note_list st))) ''No emotions detected''),
             themesWrap = Some (show_top (spec_top (allThemes (note_list st))) ''No themes detected'')\<rparr>)
   \<and> (note_list st = [] \<and> emotionsWrap page_dom \<noteq> None \<and> themesWrap page_dom \<noteq> None \<longrightarrow>
        renderOverview_v2 st page_dom
          = \<lparr>shown = \<lparr>emotionsWrap = Some (Placeholder ''No emotions detected''),
                       themesWrap = Some (Placeholder ''No themes detected'')\<rparr>,
             thrown = False\<rparr>)
   \<and> show_top [] ''No emotions detected'' = Placeholder ''No emotions detected''"
proof -
  have c1: "own_labels labels \<longrightarrow>
        topLabels labels
          = take 5 (sort_key (\<lambda>l. - int (count_list labels l)) (property_order (first_seen labels)))
        \<and> length (topLabels labels) \<le> 5
        \<and> ((\<forall>l\<in>set labels. \<not> is_array_index l) \<longrightarrow> topLabels labels = spec_top labels)"
  proof (intro impI conjI)
    show "topLabels labels
          = take 5 (sort_key (\<lambda>l. - int (count_list labels l)) (property_order (first_seen labels)))"
      by (rule topLabels_eq)
    show "length (topLabels labels) \<le> 5" unfolding topLabels_eq by simp
    show "topLabels labels = spec_top labels" if "\<forall>l\<in>set labels. \<not> is_array_index l"
      using that by (rule topLabels_plain)
  qed
  have c5: "note_list st \<noteq> [] \<and> emotionsWrap page_dom \<noteq> None \<and> themesWrap page_dom \<noteq> None
        \<and> own_labels (allEmotions (note_list st)) \<and> own_labels (allThemes (note_list st)) \<longrightarrow>
        renderOverview st page_dom
          = \<lparr>emotionsWrap = Some (show_top (topLabels (allEmotions (note_list st))) ''No emotions detected''),
             themesWrap = Some (show_top (topLabels (allThemes (note_list st))) ''No themes detected'')\<rparr>
        \<and> renderOverview_v2 st page_dom = \<lparr>shown = renderOverview st page_dom, thrown = False\<rparr>"
    using renderOverview_present[of st page_dom] by blast
  have c6: "note_list st \<noteq> [] \<and> emotionsWrap page_dom \<noteq> None \<and> themesWrap page_dom \<noteq> None
        \<and> own_labels (allEmotions (note_list st)) \<and> own_labels (allThemes (note_list st))
        \<and> (\<forall>l\<in>set (allEmotions (note_list st)) \<union> set (allThemes (note_list st)). \<not> is_array_index l) \<longrightarrow>
        renderOverview st page_dom
          = \<lparr>emotionsWrap = Some (show_top (spec_top (allEmotions (note_list st))) ''No emotions detected''),
             themesWrap = Some (show_top (spec_top (allThemes (note_list st))) ''No themes detected'')\<rparr>"
  proof
    assume a: "note_list st \<noteq> [] \<and> emotionsWrap page_dom \<noteq> None \<and> themesWrap page_dom \<noteq> None
        \<and> own_labels (allEmotions (note_list st)) \<and> own_labels (allThemes (note_list st))
        \<and> (\<forall>l\<in>set (allEmotions (note_list st)) \<union> set (allThemes (note_list st)). \<not> is_array_index l)"
    then have pe: "\<forall>l\<in>set (allEmotions (note_list st)). \<not> is_array_index l"
      and pt: "\<forall>l\<in>set (allThemes (note_list st)). \<not> is_array_index l" by blast+
    have e: "topLabels (allEmotions (note_list st)) = spec_top (allEmotions (note_list st))"
      using pe by (rule topLabels_plain)
    have t: "topLabels (allThemes (note_list st)) = spec_top (allThemes (note_list st))"
      using pt by (rule topLabels_plain)
    from a have "note_list st \<noteq> []" "emotionsWrap page_dom \<noteq> None" "themesWrap page_dom \<noteq> None"
      by blast+
    then show "renderOverview st page_dom
          = \<lparr>emotionsWrap = Some (show_top (spec_top (allEmotions (note_list st))) ''No emotions detected''),
             themesWrap = Some (show_top (spec_top (allThemes (note_list st))) ''No themes detected'')\<rparr>"
      unfolding e[symmetric] t[symmetric] by (rule renderOverview_present(1))
  qed
  have c7: "note_list st = [] \<and> emotionsWrap page_dom \<noteq> None \<and> themesWrap page_dom \<noteq> None \<longrightarrow>
        renderOverview_v2 st page_dom
          = \<lparr>shown = \<lparr>emotionsWrap = Some (Placeholder ''No emotions detected''),
                       themesWrap = Some (Placeholder ''No themes detected'')\<rparr>,
             thrown = False\<rparr>"
    using renderOverview_v2_empty[of st page_dom] by blast
  have c8: "show_top [] ''No emotions detected'' = Placeholder ''No emotions detected''"
    by (simp add: show_top_def)
  from c1 first_seen_distinct[of labels] first_seen_set[of labels] c5 c6 c7 c8
  show ?thesis by (intro conjI)
qed

theorem renderOverview_top_five_witness:
  "own_labels [''calm'', ''joy'', ''sad'', ''joy'', ''sad'', ''calm'', ''calm'']
   \<and> list_all (\<lambda>l. \<not> is_array_index l) [''calm'', ''joy'', ''sad'', ''joy'', ''sad'', ''calm'', ''calm'']
   \<and> topLabels [''calm'', ''joy'', ''sad'', ''joy'', ''sad'', ''calm'', ''calm'']
       = spec_top [''calm'', ''joy'', ''sad'', ''joy'', ''sad'', ''calm'', ''calm'']
   \<and> spec_top [''calm'', ''joy'', ''sad'', ''joy'', ''sad'', ''calm'', ''calm''] = [''calm'', ''joy'', ''sad'']
   \<and> renderOverview
        ((initial_state ''2025-03-09'')
           \<lparr>note_list := [example_note Positive [''joy'', ''calm''] [''rest''],
                          example_note Neutral [''calm''] [''work'', ''rest'']]\<rparr>)
        \<lparr>emotionsWrap = Some (Placeholder []), themesWrap = Some (Placeholder [])\<rparr>
       = \<lparr>emotionsWrap = Some (Badges [''calm'', ''joy'']), themesWrap = Some (Badges [''rest'', ''work''])\<rparr>
   \<and> renderOverview_v2 (initial_state ''2025-03-09'')
        \<lparr>emotionsWrap = Some (Badges [''calm'', ''joy'']), themesWrap = Some (Badges [''rest'', ''work''])\<rparr>
       = \<lparr>shown = \<lparr>emotionsWrap = Some (Placeholder ''No emotions detected''),
                    themesWrap = Some (Placeholder ''No themes detected'')\<rparr>,
          thrown = False\<rparr>"
proof -
  let ?ls = "[''calm'', ''joy'', ''sad'', ''joy'', ''sad'', ''calm'', ''calm'']"
  let ?st = "(initial_state ''2025-03-09'')
           \<lparr>note_list := [example_note Positive [''joy'', ''calm''] [''rest''],
                          example_note Neutral [''calm''] [''work'', ''rest'']]\<rparr>"
  let ?dom = "\<lparr>emotionsWrap = Some (Placeholder []), themesWrap = Some (Placeholder [])\<rparr>"
  let ?dom2 = "\<lparr>emotionsWrap = Some (Badges [''calm'', ''joy'']), themesWrap = Some (Badges [''rest'', ''work''])\<rparr>"
  have o: "own_labels ?ls" by code_simp
  have p: "list_all (\<lambda>l. \<not> is_array_index l) ?ls" by code_simp
  then have h: "\<forall>l\<in>set ?ls. \<not> is_array_index l" by (simp only: list_all_iff)
  note t = renderOverview_top_five
  have 1: "topLabels ?ls = spec_top ?ls"
    using t[of ?ls, THEN conjunct1, THEN mp, OF o, THEN conjunct2, THEN conjunct2] h by (rule mp)
  have 2: "spec_top ?ls = [''calm'', ''joy'', ''sad'']" by code_simp
  have n: "note_list ?st \<noteq> [] \<and> emotionsWrap ?dom \<noteq> None \<and> themesWrap ?dom \<noteq> None
      \<and> own_labels (allEmotions (note_list ?st)) \<and> own_labels (allThemes (note_list ?st))"
    by code_simp
  have v: "show_top (topLabels (allEmotions (note_list ?st))) ''No emotions detected'' = Badges [''calm'', ''joy'']"
    "show_top (topLabels (allThemes (note_list ?st))) ''No themes detected'' = Badges [''rest'', ''work'']"
    by code_simp+
  have 3: "renderOverview ?st ?dom = ?dom2"
    using t[of _ ?st ?dom, THEN conjunct2, THEN conjunct2, THEN conjunct2,
        THEN conjunct1, THEN mp, OF n, THEN conjunct1]
    unfolding v .
  have e: "note_list (initial_state ''2025-03-09'') = [] \<and> emotionsWrap ?dom2 \<noteq> None
      \<and> themesWrap ?dom2 \<noteq> None"
    by (simp add: initial_state_def)
  have 4: "renderOverview_v2 (initial_state ''2025-03-09'') ?dom2
       = \<lparr>shown = \<lparr>emotionsWrap = Some (Placeholder ''No emotions detected''),
                    themesWrap = Some (Placeholder ''No themes detected'')\<rparr>,
          thrown = False\<rparr>"
    using t[of _ "initial_state ''2025-03-09''" ?dom2, THEN conjunct2, THEN conjunct2, THEN conjunct2,
        THEN conjunct2, THEN conjunct2, THEN conjunct1] e
    by (rule mp)
  from o p 1 2 3 4 show ?thesis by (intro conjI)
qed

end
